theory Spec2Isabelle
  imports Main "HOL-Library.Sublist" "HOL-Library.List_Lexorder" "HOL-Library.Char_ord"
begin

section \<open>JavaScript values and JSON.stringify\<close>

text \<open>
  The TypeScript types of the extension are erased at run time: what \<^verbatim>\<open>SessionModel\<close>,
  \<^verbatim>\<open>CustomDrawioInstance\<close> and \<^verbatim>\<open>Config\<close> handle are JavaScript values. An object is the list
  of its own enumerable properties in enumeration order, so that the order in which a
  producer wrote the keys is part of the value, as it is for \<^verbatim>\<open>JSON.stringify\<close>.
  The type \<open>'n\<close> stands for \<^verbatim>\<open>number\<close>; the text that \<^verbatim>\<open>JSON.stringify\<close> writes for a
  number (\<^verbatim>\<open>Number::toString\<close> for a finite one, \<^verbatim>\<open>null\<close> otherwise) is a parameter \<open>num\<close>
  of the serializer. A string is the list of the bytes of its UTF-8 encoding; the
  characters that JSON treats specially are all single bytes.
\<close>

datatype 'n jsval =
    JUndefined
  | JNull
  | JBool bool
  | JNum 'n
  | JStr string
  | JArr "'n jsval list"
  | JObj "(string \<times> 'n jsval) list"

text \<open>JavaScript exceptions, as values.\<close>

datatype error =
    Error string
  | SyntaxError
  | TypeError

definition hexdigit :: "nat \<Rightarrow> char" where
  "hexdigit d = ''0123456789abcdef'' ! d"

text \<open>\<^verbatim>\<open>QuoteJSONString\<close> of ECMA-262, one code unit at a time.\<close>

definition QuoteJSONChar :: "char \<Rightarrow> string" where
  "QuoteJSONChar c =
     (if c = CHR 0x08 then [CHR 0x5C, CHR ''b'']
      else if c = CHR 0x09 then [CHR 0x5C, CHR ''t'']
      else if c = CHR 0x0A then [CHR 0x5C, CHR ''n'']
      else if c = CHR 0x0C then [CHR 0x5C, CHR ''f'']
      else if c = CHR 0x0D then [CHR 0x5C, CHR ''r'']
      else if c = CHR 0x22 then [CHR 0x5C, CHR 0x22]
      else if c = CHR 0x5C then [CHR 0x5C, CHR 0x5C]
      else if (of_char c :: nat) < 0x20
        then [CHR 0x5C, CHR ''u'', CHR ''0'', CHR ''0'',
              hexdigit (of_char c div 16), hexdigit (of_char c mod 16)]
      else [c])"

definition QuoteJSONString :: "string \<Rightarrow> string" where
  "QuoteJSONString s = [CHR 0x22] @ concat (map QuoteJSONChar s) @ [CHR 0x22]"

fun join :: "string \<Rightarrow> string list \<Rightarrow> string" where
  "join sep [] = []"
| "join sep [x] = x"
| "join sep (x # y # ys) = x @ sep @ join sep (y # ys)"

text \<open>
  \<^verbatim>\<open>JSON.stringify(value)\<close> with no replacer and no indentation. \<open>None\<close> is the result
  \<^verbatim>\<open>undefined\<close>, which the top-level call returns for \<^verbatim>\<open>undefined\<close>. A property whose value
  serializes to \<^verbatim>\<open>undefined\<close> is left out of its object; such an element of an array is
  written \<^verbatim>\<open>null\<close>.
\<close>

primrec JSON_stringify :: "('n \<Rightarrow> string) \<Rightarrow> 'n jsval \<Rightarrow> string option" where
  "JSON_stringify num JUndefined = None"
| "JSON_stringify num JNull = Some ''null''"
| "JSON_stringify num (JBool b) = Some (if b then ''true'' else ''false'')"
| "JSON_stringify num (JNum n) = Some (num n)"
| "JSON_stringify num (JStr s) = Some (QuoteJSONString s)"
| "JSON_stringify num (JArr xs) =
     Some (''['' @ join '',''
       (map (\<lambda>t. case t of None \<Rightarrow> ''null'' | Some s \<Rightarrow> s) (map (JSON_stringify num) xs)) @ '']'')"
| "JSON_stringify num (JObj kvs) =
     Some (''{'' @ join '',''
       (List.map_filter (\<lambda>(k, t). map_option (\<lambda>s. QuoteJSONString k @ '':'' @ s) t)
          (map (map_prod id (JSON_stringify num)) kvs)) @ ''}'')"

text \<open>
  An instance of the number parameter for the examples below: the integers, written
  in decimal as \<^verbatim>\<open>Number::toString\<close> writes an integer-valued number below \<open>10\<^sup>2\<^sup>1\<close>.
\<close>

fun decimal :: "nat \<Rightarrow> string" where
  "decimal n =
     (if n < 10 then [''0123456789'' ! n] else decimal (n div 10) @ [''0123456789'' ! (n mod 10)])"

declare decimal.simps [simp del]

definition Number_toString :: "int \<Rightarrow> string" where
  "Number_toString i = (if i < 0 then CHR ''-'' # decimal (nat (- i)) else decimal (nat i))"

section \<open>SessionModel\<close>

text \<open>
  \<^verbatim>\<open>viewStatesByPeerId\<close> is a MobX \<^verbatim>\<open>ObservableMap\<close> from peer ids to entries
  \<^verbatim>\<open>{ peerId, viewState }\<close>. The model keeps the map and, beside it, the log of the change
  notifications the map has fired (the key of each change, oldest first).
\<close>

record 'n SessionModel =
  viewStatesByPeerId :: "'n \<rightharpoonup> 'n jsval"
  notifications :: "'n list"

datatype 'n SessionModelUpdate =
    updateViewState 'n "'n jsval"
  | removePeer 'n
  | updateCursor 'n "'n jsval"

text \<open>
  \<^verbatim>\<open>ObservableMap.get\<close> returns \<^verbatim>\<open>undefined\<close> for a missing key. \<^verbatim>\<open>ObservableMap.set\<close> with a
  freshly built object stores it and notifies the observers of the map.
\<close>

definition ObservableMap_get :: "'n SessionModel \<Rightarrow> 'n \<Rightarrow> 'n jsval" where
  "ObservableMap_get this key =
     (case viewStatesByPeerId this key of None \<Rightarrow> JUndefined | Some v \<Rightarrow> v)"

definition ObservableMap_set :: "'n SessionModel \<Rightarrow> 'n \<Rightarrow> 'n jsval \<Rightarrow> 'n SessionModel" where
  "ObservableMap_set this key v =
     this\<lparr>viewStatesByPeerId := (viewStatesByPeerId this)(key \<mapsto> v),
          notifications := notifications this @ [key]\<rparr>"

text \<open>\<^verbatim>\<open>SessionModel.apply\<close>; the object literal writes \<^verbatim>\<open>peerId\<close> before \<^verbatim>\<open>viewState\<close>.\<close>

fun SessionModel_apply ::
  "('n \<Rightarrow> string) \<Rightarrow> 'n SessionModel \<Rightarrow> 'n SessionModelUpdate \<Rightarrow> 'n SessionModel" where
  "SessionModel_apply num this (updateViewState peerId newViewState) =
     (let val = ObservableMap_get this peerId;
          newVal = JObj [(''peerId'', JNum peerId), (''viewState'', newViewState)]
      in if JSON_stringify num val \<noteq> JSON_stringify num newVal
         then ObservableMap_set this peerId newVal
         else this)"
| "SessionModel_apply num this (removePeer peerId) = this"
| "SessionModel_apply num this (updateCursor peerId cursorPosition) = this"

text \<open>A sequence of \<^verbatim>\<open>apply\<close> calls, in order.\<close>

definition apply_all ::
  "('n \<Rightarrow> string) \<Rightarrow> 'n SessionModel \<Rightarrow> 'n SessionModelUpdate list \<Rightarrow> 'n SessionModel" where
  "apply_all num this us = foldl (SessionModel_apply num) this us"

definition new_SessionModel :: "'n SessionModel" where
  "new_SessionModel = \<lparr>viewStatesByPeerId = Map.empty, notifications = []\<rparr>"

text \<open>The change notifications fired on the way from one state to a later one.\<close>

definition fired :: "'n SessionModel \<Rightarrow> 'n SessionModel \<Rightarrow> nat" where
  "fired before after = length (notifications after) - length (notifications before)"

section \<open>The declared shape of a view state\<close>

text \<open>
  A property read \<^verbatim>\<open>obj.key\<close> on an object: \<^verbatim>\<open>undefined\<close> when the object has no such
  property.
\<close>

definition property :: "(string \<times> 'n jsval) list \<Rightarrow> string \<Rightarrow> 'n jsval" where
  "property kvs k = (case map_of kvs k of None \<Rightarrow> JUndefined | Some v \<Rightarrow> v)"

text \<open>
  The types \<^verbatim>\<open>Point\<close>, \<^verbatim>\<open>NormalizedUri\<close> (a branded string) and \<^verbatim>\<open>ViewState\<close> of
  \<^verbatim>\<open>SessionModel.ts\<close>, as predicates on run-time values. They say which properties a
  value has, not in which order it lists them.
\<close>

definition is_number :: "'n jsval \<Rightarrow> bool" where
  "is_number v = (case v of JNum n \<Rightarrow> True | _ \<Rightarrow> False)"

definition is_string :: "'n jsval \<Rightarrow> bool" where
  "is_string v = (case v of JStr s \<Rightarrow> True | _ \<Rightarrow> False)"

definition is_Point :: "'n jsval \<Rightarrow> bool" where
  "is_Point v =
     (case v of JObj kvs \<Rightarrow> is_number (property kvs ''x'') \<and> is_number (property kvs ''y'') | _ \<Rightarrow> False)"

definition is_ViewState :: "'n jsval \<Rightarrow> bool" where
  "is_ViewState v =
     (case v of
        JUndefined \<Rightarrow> True
      | JObj kvs \<Rightarrow>
          is_string (property kvs ''activeUri'')
          \<and> (case property kvs ''currentCursor'' of JUndefined \<Rightarrow> True | c \<Rightarrow> is_Point c)
          \<and> (case property kvs ''selectedCellIds'' of JArr ids \<Rightarrow> list_all is_string ids | _ \<Rightarrow> False)
      | _ \<Rightarrow> False)"

text \<open>
  Content-based deep equality, the comparison the specification asks for: two values
  are equal when they agree after the properties of every object are put in one fixed
  order (sorted by key). \<open>key_order\<close> keeps of a value only the order in which its objects
  list their keys; \<open>distinct_keys\<close> holds of every JavaScript object.
\<close>

primrec canonical :: "'n jsval \<Rightarrow> 'n jsval" where
  "canonical JUndefined = JUndefined"
| "canonical JNull = JNull"
| "canonical (JBool b) = JBool b"
| "canonical (JNum n) = JNum n"
| "canonical (JStr s) = JStr s"
| "canonical (JArr xs) = JArr (map canonical xs)"
| "canonical (JObj kvs) = JObj (sort_key fst (map (map_prod id canonical) kvs))"

definition deep_equal :: "'n jsval \<Rightarrow> 'n jsval \<Rightarrow> bool" where
  "deep_equal a b = (canonical a = canonical b)"

primrec key_order :: "'n jsval \<Rightarrow> unit jsval" where
  "key_order JUndefined = JNull"
| "key_order JNull = JNull"
| "key_order (JBool b) = JNull"
| "key_order (JNum n) = JNull"
| "key_order (JStr s) = JNull"
| "key_order (JArr xs) = JArr (map key_order xs)"
| "key_order (JObj kvs) = JObj (map (map_prod id key_order) kvs)"

primrec distinct_keys :: "'n jsval \<Rightarrow> bool" where
  "distinct_keys JUndefined = True"
| "distinct_keys JNull = True"
| "distinct_keys (JBool b) = True"
| "distinct_keys (JNum n) = True"
| "distinct_keys (JStr s) = True"
| "distinct_keys (JArr xs) = list_all id (map distinct_keys xs)"
| "distinct_keys (JObj kvs) =
     (distinct (map fst kvs) \<and> list_all snd (map (map_prod id distinct_keys) kvs))"

text \<open>
  Two view states of one peer with the same contents: the first producer writes
  \<^verbatim>\<open>activeUri\<close> first, the second \<^verbatim>\<open>selectedCellIds\<close>.
\<close>

definition viewState_uri_first :: "int jsval" where
  "viewState_uri_first =
     JObj [(''activeUri'', JStr ''file:///a.drawio''),
           (''currentCursor'', JObj [(''x'', JNum 10), (''y'', JNum 20)]),
           (''selectedCellIds'', JArr [JStr ''2''])]"

definition viewState_ids_first :: "int jsval" where
  "viewState_ids_first =
     JObj [(''selectedCellIds'', JArr [JStr ''2'']),
           (''activeUri'', JStr ''file:///a.drawio''),
           (''currentCursor'', JObj [(''x'', JNum 10), (''y'', JNum 20)])]"

text \<open>
  The same for any number type: two view states with no cursor, equal in contents and
  different in the order of their keys.
\<close>

definition no_cursor_uri_first :: "'n jsval" where
  "no_cursor_uri_first =
     JObj [(''activeUri'', JStr ''file:///a.drawio''),
           (''currentCursor'', JUndefined),
           (''selectedCellIds'', JArr [JStr ''2''])]"

definition no_cursor_ids_first :: "'n jsval" where
  "no_cursor_ids_first =
     JObj [(''selectedCellIds'', JArr [JStr ''2'']),
           (''activeUri'', JStr ''file:///a.drawio''),
           (''currentCursor'', JUndefined)]"


section \<open>CustomDrawioInstance\<close>

text \<open>
  A wire event or action is an object with a discriminant (\<^verbatim>\<open>event\<close> or \<^verbatim>\<open>action\<close>) and
  the payload properties of its kind. The five emitters of the class are told apart by
  name; a notification is the emitter and the object passed to \<^verbatim>\<open>emit\<close>.
\<close>

type_synonym 'n jsobject = "(string \<times> 'n jsval) list"

datatype emitter =
    onNodeSelectedEmitter
  | onCustomPluginLoadedEmitter
  | onCursorChangeEmitter
  | onSelectionsChangedEmitter
  | onFocusChangedEmitter

text \<open>
  What one call of \<^verbatim>\<open>handleEvent\<close> does: it emits on one emitter, or it hands the event
  to \<^verbatim>\<open>super.handleEvent\<close> of the base class \<^verbatim>\<open>DrawioInstance\<close> and finishes as that call
  does (\<open>'r\<close> is the outcome of the base handler, rejection included).
\<close>

datatype ('n, 'r) dispatch =
    Emit emitter "'n jsval"
  | Super 'r

text \<open>
  \<^verbatim>\<open>CustomDrawioInstance.handleEvent\<close>. The base handler is a parameter: the class
  \<^verbatim>\<open>DrawioInstance\<close> is an external collaborator.
\<close>

definition handleEvent :: "('n jsobject \<Rightarrow> 'r) \<Rightarrow> 'n jsobject \<Rightarrow> ('n, 'r) dispatch" where
  "handleEvent super_handleEvent evt =
     (if property evt ''event'' = JStr ''nodeSelected'' then
        Emit onNodeSelectedEmitter
          (JObj [(''label'', property evt ''label''), (''linkedData'', property evt ''linkedData'')])
      else if property evt ''event'' = JStr ''pluginLoaded'' then
        Emit onCustomPluginLoadedEmitter (JObj [(''pluginId'', property evt ''pluginId'')])
      else if property evt ''event'' = JStr ''focusChanged'' then
        Emit onFocusChangedEmitter (JObj [(''hasFocus'', property evt ''hasFocus'')])
      else if property evt ''event'' = JStr ''cursorChanged'' then
        Emit onCursorChangeEmitter (JObj [(''newPosition'', property evt ''position'')])
      else if property evt ''event'' = JStr ''selectionChanged'' then
        Emit onSelectionsChangedEmitter
          (JObj [(''selectedCellIds'', property evt ''selectedCellIds'')])
      else Super (super_handleEvent evt))"

text \<open>
  \<^verbatim>\<open>CustomDrawioInstance.getVertices\<close>. The promise it returns is modelled by its outcome:
  \<open>Inl\<close> a rejection, \<open>Inr\<close> the value it resolves to. \<^verbatim>\<open>sendCustomActionExpectResponse\<close>
  of the base class is a parameter, given by the outcome of its promise for an action;
  a rejection there is rethrown by \<^verbatim>\<open>await\<close>.
\<close>

definition getVertices :: "('n jsobject \<Rightarrow> error + 'n jsobject) \<Rightarrow> error + 'n jsval" where
  "getVertices sendCustomActionExpectResponse =
     (case sendCustomActionExpectResponse [(''action'', JStr ''getVertices'')] of
        Inl e \<Rightarrow> Inl e
      | Inr response \<Rightarrow>
          if property response ''event'' \<noteq> JStr ''getVertices''
          then Inl (Error ''Invalid Response'')
          else Inr (property response ''vertices''))"

text \<open>Example events and responses.\<close>

definition nodeSelected_event :: "int jsobject" where
  "nodeSelected_event =
     [(''event'', JStr ''nodeSelected''), (''label'', JStr ''Start''), (''linkedData'', JNum 7)]"

definition pluginLoaded_event :: "int jsobject" where
  "pluginLoaded_event = [(''event'', JStr ''pluginLoaded''), (''pluginId'', JStr ''linkselectednode'')]"

definition focusChanged_event :: "int jsobject" where
  "focusChanged_event = [(''event'', JStr ''focusChanged''), (''hasFocus'', JBool True)]"

definition cursorChanged_event :: "int jsobject" where
  "cursorChanged_event =
     [(''event'', JStr ''cursorChanged''), (''position'', JObj [(''x'', JNum 3), (''y'', JNum 4)])]"

definition selectionChanged_event :: "int jsobject" where
  "selectionChanged_event =
     [(''event'', JStr ''selectionChanged''), (''selectedCellIds'', JArr [JStr ''2'', JStr ''5''])]"

definition autosave_event :: "int jsobject" where
  "autosave_event = [(''event'', JStr ''autosave''), (''xml'', JStr ''<mxfile/>'')]"

definition getVertices_response :: "int jsobject" where
  "getVertices_response =
     [(''event'', JStr ''getVertices''),
      (''vertices'', JArr [JObj [(''id'', JStr ''2''), (''label'', JStr ''Start'')]])]"

section \<open>Config: known plugins\<close>

text \<open>An element of the \<^verbatim>\<open>knownPlugins\<close> setting.\<close>

record KnownPlugin =
  pluginId :: string
  fingerprint :: string
  allowed :: bool

text \<open>
  Modelled from the spec: the class \<^verbatim>\<open>VsCodeSetting\<close> and \<^verbatim>\<open>serializerWithDefault\<close> are not
  among the sources. A setting is the value persisted under its key, if any; reading a
  setting declared with \<^verbatim>\<open>serializerWithDefault(d)\<close> yields the persisted value, or \<open>d\<close> when
  none is persisted (\<^verbatim>\<open>knownPlugins\<close>: a list, ``default empty''), and writing replaces the
  persisted value.
\<close>

definition VsCodeSetting_get :: "'a \<Rightarrow> 'a option \<Rightarrow> 'a" where
  "VsCodeSetting_get dflt setting = (case setting of None \<Rightarrow> dflt | Some v \<Rightarrow> v)"

definition VsCodeSetting_set :: "'a \<Rightarrow> 'a option" where
  "VsCodeSetting_set v = Some v"

text \<open>
  \<^verbatim>\<open>Config.isPluginAllowed\<close> and \<^verbatim>\<open>Config.addKnownPlugin\<close>; \<open>knownPlugins\<close> is the state of
  the setting \<^verbatim>\<open>_knownPlugins\<close>, and \<open>None\<close> is the result \<^verbatim>\<open>undefined\<close>.
\<close>

definition isPluginAllowed :: "KnownPlugin list option \<Rightarrow> string \<Rightarrow> string \<Rightarrow> bool option" where
  "isPluginAllowed knownPlugins pid fp =
     (let data = VsCodeSetting_get [] knownPlugins;
          entry = find (\<lambda>d. pluginId d = pid \<and> fingerprint d = fp) data
      in case entry of None \<Rightarrow> None | Some e \<Rightarrow> Some (allowed e))"

definition addKnownPlugin ::
  "KnownPlugin list option \<Rightarrow> string \<Rightarrow> string \<Rightarrow> bool \<Rightarrow> KnownPlugin list option" where
  "addKnownPlugin knownPlugins pid fp allow =
     (let plugins = filter (\<lambda>p. pluginId p \<noteq> pid \<or> fingerprint p \<noteq> fp)
                      (VsCodeSetting_get [] knownPlugins);
          plugins = plugins @ [\<lparr>pluginId = pid, fingerprint = fp, allowed = allow\<rparr>]
      in VsCodeSetting_set plugins)"

text \<open>The decisions stored for one key \<^verbatim>\<open>(pluginId, fingerprint)\<close>.\<close>

definition decisions_for :: "KnownPlugin list option \<Rightarrow> string \<Rightarrow> string \<Rightarrow> KnownPlugin list" where
  "decisions_for knownPlugins pid fp =
     filter (\<lambda>d. pluginId d = pid \<and> fingerprint d = fp) (VsCodeSetting_get [] knownPlugins)"

text \<open>The decisions stored for all other keys, in stored order.\<close>

definition other_decisions :: "KnownPlugin list option \<Rightarrow> string \<Rightarrow> string \<Rightarrow> KnownPlugin list" where
  "other_decisions knownPlugins pid fp =
     filter (\<lambda>d. \<not> (pluginId d = pid \<and> fingerprint d = fp)) (VsCodeSetting_get [] knownPlugins)"

definition stored_plugins :: "KnownPlugin list option" where
  "stored_plugins =
     Some [\<lparr>pluginId = ''file:///p.js'', fingerprint = ''abc'', allowed = False\<rparr>,
           \<lparr>pluginId = ''file:///q.js'', fingerprint = ''def'', allowed = True\<rparr>]"

section \<open>JSON.parse\<close>

text \<open>
  \<^verbatim>\<open>JSON.parse(text)\<close> with no reviver, after the JSON grammar of ECMA-404: a recursive
  descent over the characters of the text that returns the value read and the rest of
  the text, or \<open>None\<close> where \<^verbatim>\<open>JSON.parse\<close> throws a \<^verbatim>\<open>SyntaxError\<close>.
\<close>

definition is_ws :: "char \<Rightarrow> bool" where
  "is_ws c = (c = CHR 0x20 \<or> c = CHR 0x09 \<or> c = CHR 0x0A \<or> c = CHR 0x0D)"

definition skip_ws :: "string \<Rightarrow> string" where
  "skip_ws s = dropWhile is_ws s"

definition is_digit :: "char \<Rightarrow> bool" where
  "is_digit c = (48 \<le> (of_char c :: nat) \<and> (of_char c :: nat) \<le> 57)"

definition hexval :: "char \<Rightarrow> nat option" where
  "hexval c =
     (let n = (of_char c :: nat)
      in if 48 \<le> n \<and> n \<le> 57 then Some (n - 48)
         else if 97 \<le> n \<and> n \<le> 102 then Some (n - 87)
         else if 65 \<le> n \<and> n \<le> 70 then Some (n - 55)
         else None)"

text \<open>The character a two-character escape sequence stands for.\<close>

definition unescape :: "char \<Rightarrow> char option" where
  "unescape e =
     (if e = CHR 0x22 then Some (CHR 0x22)
      else if e = CHR 0x5C then Some (CHR 0x5C)
      else if e = CHR ''/'' then Some (CHR ''/'')
      else if e = CHR ''b'' then Some (CHR 0x08)
      else if e = CHR ''f'' then Some (CHR 0x0C)
      else if e = CHR ''n'' then Some (CHR 0x0A)
      else if e = CHR ''r'' then Some (CHR 0x0D)
      else if e = CHR ''t'' then Some (CHR 0x09)
      else None)"

text \<open>
  The contents of a string literal: characters of the text taken as they are, and the
  UTF-16 code units written as \<^verbatim>\<open>\uXXXX\<close>.
\<close>

datatype item =
    Raw char
  | Unit nat

text \<open>
  Reads a string literal after its opening quote, up to and including the closing
  quote. A control character below U+0020 must be escaped.
\<close>

fun parse_chars :: "string \<Rightarrow> (item list \<times> string) option" where
  "parse_chars [] = None"
| "parse_chars (c # cs) =
     (if c = CHR 0x22 then Some ([], cs)
      else if c = CHR 0x5C then
        (case cs of
           [] \<Rightarrow> None
         | e # r \<Rightarrow>
             if e = CHR ''u'' then
               (case r of
                  h1 # h2 # h3 # h4 # r' \<Rightarrow>
                    (case (hexval h1, hexval h2, hexval h3, hexval h4) of
                       (Some a, Some b, Some c, Some d) \<Rightarrow>
                         (case parse_chars r' of
                            None \<Rightarrow> None
                          | Some (its, rest) \<Rightarrow>
                              Some (Unit (((a * 16 + b) * 16 + c) * 16 + d) # its, rest))
                     | _ \<Rightarrow> None)
                | _ \<Rightarrow> None)
             else
               (case unescape e of
                  None \<Rightarrow> None
                | Some ch \<Rightarrow>
                    (case parse_chars r of
                       None \<Rightarrow> None
                     | Some (its, rest) \<Rightarrow> Some (Raw ch # its, rest))))
      else if (of_char c :: nat) < 0x20 then None
      else
        (case parse_chars cs of
           None \<Rightarrow> None
         | Some (its, rest) \<Rightarrow> Some (Raw c # its, rest)))"

text \<open>The UTF-8 encoding of a code point.\<close>

definition utf8_encode :: "nat \<Rightarrow> string" where
  "utf8_encode n =
     (if n < 0x80 then [char_of n]
      else if n < 0x800 then [char_of (0xC0 + n div 0x40), char_of (0x80 + n mod 0x40)]
      else if n < 0x10000 then
        [char_of (0xE0 + n div 0x1000), char_of (0x80 + n div 0x40 mod 0x40),
         char_of (0x80 + n mod 0x40)]
      else
        [char_of (0xF0 + n div 0x40000), char_of (0x80 + n div 0x1000 mod 0x40),
         char_of (0x80 + n div 0x40 mod 0x40), char_of (0x80 + n mod 0x40)])"

text \<open>
  The string of a literal's contents. A high surrogate followed by a low surrogate is
  one code point; a surrogate on its own is written in the three-byte form.
\<close>

fun string_of_items :: "item list \<Rightarrow> string" where
  "string_of_items [] = []"
| "string_of_items (Raw c # r) = c # string_of_items r"
| "string_of_items (Unit h # Unit l # r) =
     (if 0xD800 \<le> h \<and> h < 0xDC00 \<and> 0xDC00 \<le> l \<and> l < 0xE000
      then utf8_encode (0x10000 + (h - 0xD800) * 0x400 + (l - 0xDC00)) @ string_of_items r
      else utf8_encode h @ string_of_items (Unit l # r))"
| "string_of_items (Unit u # r) = utf8_encode u @ string_of_items r"

text \<open>A number literal: the text of the literal and the rest of the input.\<close>

definition scan_fraction :: "string \<Rightarrow> (string \<times> string) option" where
  "scan_fraction s =
     (case s of
        [] \<Rightarrow> Some ([], s)
      | c # cs \<Rightarrow>
          if c = CHR ''.'' then
            (if takeWhile is_digit cs = [] then None
             else Some (c # takeWhile is_digit cs, dropWhile is_digit cs))
          else Some ([], s))"

definition scan_exponent :: "string \<Rightarrow> (string \<times> string) option" where
  "scan_exponent s =
     (case s of
        [] \<Rightarrow> Some ([], s)
      | c # cs \<Rightarrow>
          if c = CHR ''e'' \<or> c = CHR ''E'' then
            (let (sign, r) =
               (case cs of
                  [] \<Rightarrow> ([], cs)
                | x # xs \<Rightarrow> if x = CHR ''+'' \<or> x = CHR ''-'' then ([x], xs) else ([], cs))
             in if takeWhile is_digit r = [] then None
                else Some (c # sign @ takeWhile is_digit r, dropWhile is_digit r))
          else Some ([], s))"

definition scan_number :: "string \<Rightarrow> (string \<times> string) option" where
  "scan_number s =
     (let (sign, s1) =
        (case s of [] \<Rightarrow> ([], s) | c # cs \<Rightarrow> if c = CHR ''-'' then ([c], cs) else ([], s))
      in case s1 of
           [] \<Rightarrow> None
         | d # ds \<Rightarrow>
             if \<not> is_digit d then None
             else
               (let (int_part, s2) =
                  (if d = CHR ''0'' then ([d], ds)
                   else (d # takeWhile is_digit ds, dropWhile is_digit ds))
                in case scan_fraction s2 of
                     None \<Rightarrow> None
                   | Some (fraction, s3) \<Rightarrow>
                       (case scan_exponent s3 of
                          None \<Rightarrow> None
                        | Some (exponent, s4) \<Rightarrow>
                            Some (sign @ int_part @ fraction @ exponent, s4))))"

text \<open>
  \<^verbatim>\<open>CreateDataProperty\<close> on the object under construction. An object lists its array
  indices (the canonical numeric strings up to \<open>2\<^sup>3\<^sup>2 - 2\<close>) first, in ascending order,
  and then its other keys in the order of their creation; a key that is already there
  keeps its place and takes the new value. Canonical numeric strings are compared by
  length and then digit by digit.
\<close>

definition is_array_index :: "string \<Rightarrow> bool" where
  "is_array_index k =
     (k \<noteq> [] \<and> list_all is_digit k \<and> (k = ''0'' \<or> hd k \<noteq> CHR ''0'')
      \<and> (length k < 10 \<or> (length k = 10 \<and> k \<le> ''4294967294'')))"

definition index_less :: "string \<Rightarrow> string \<Rightarrow> bool" where
  "index_less a b = (length a < length b \<or> (length a = length b \<and> a < b))"

fun insert_index :: "string \<Rightarrow> 'v \<Rightarrow> (string \<times> 'v) list \<Rightarrow> (string \<times> 'v) list" where
  "insert_index k v [] = [(k, v)]"
| "insert_index k v ((k', v') # r) =
     (if is_array_index k' \<and> index_less k' k
      then (k', v') # insert_index k v r
      else (k, v) # (k', v') # r)"

definition define_property :: "(string \<times> 'v) list \<Rightarrow> string \<Rightarrow> 'v \<Rightarrow> (string \<times> 'v) list" where
  "define_property kvs k v =
     (if k \<in> set (map fst kvs) then map (\<lambda>(k', v'). if k' = k then (k', v) else (k', v')) kvs
      else if is_array_index k then insert_index k v kvs
      else kvs @ [(k, v)])"

text \<open>Skipping white space never makes the text longer.\<close>

lemma length_skip_ws: "length (skip_ws s) \<le> length s"
  by (simp add: skip_ws_def length_dropWhile_le)

lemma skip_ws_Cons_shorter: "skip_ws s = c # cs \<Longrightarrow> length cs < length s"
  using length_skip_ws [of s] by simp

text \<open>
  The three mutually recursive readers: a value, the elements of an array after its
  first bracket, the members of an object after its first brace. \<open>lit\<close> is the number a
  number literal denotes. Each reader continues only on a rest that is shorter than what
  it was given; \<open>parse_value_consumes\<close> below shows that this is always so.
\<close>

function parse_value :: "(string \<Rightarrow> 'n) \<Rightarrow> string \<Rightarrow> ('n jsval \<times> string) option"
  and parse_elements :: "(string \<Rightarrow> 'n) \<Rightarrow> 'n jsval list \<Rightarrow> string \<Rightarrow> ('n jsval \<times> string) option"
  and parse_members ::
    "(string \<Rightarrow> 'n) \<Rightarrow> (string \<times> 'n jsval) list \<Rightarrow> string \<Rightarrow> ('n jsval \<times> string) option"
where
  "parse_value lit s =
     (case skip_ws s of
        [] \<Rightarrow> None
      | c # cs \<Rightarrow>
          if c = CHR ''{'' then
            (case skip_ws cs of
               [] \<Rightarrow> None
             | c' # r \<Rightarrow> if c' = CHR ''}'' then Some (JObj [], r) else parse_members lit [] cs)
          else if c = CHR ''['' then
            (case skip_ws cs of
               [] \<Rightarrow> None
             | c' # r \<Rightarrow> if c' = CHR '']'' then Some (JArr [], r) else parse_elements lit [] cs)
          else if c = CHR 0x22 then
            (case parse_chars cs of
               None \<Rightarrow> None
             | Some (its, r) \<Rightarrow> Some (JStr (string_of_items its), r))
          else if take 4 (c # cs) = ''true'' then Some (JBool True, drop 4 (c # cs))
          else if take 5 (c # cs) = ''false'' then Some (JBool False, drop 5 (c # cs))
          else if take 4 (c # cs) = ''null'' then Some (JNull, drop 4 (c # cs))
          else
            (case scan_number (c # cs) of
               None \<Rightarrow> None
             | Some (t, r) \<Rightarrow> Some (JNum (lit t), r)))"
| "parse_elements lit acc s =
     (case parse_value lit s of
        None \<Rightarrow> None
      | Some (v, r) \<Rightarrow>
          if length r < length s then
            (case skip_ws r of
               [] \<Rightarrow> None
             | c # r' \<Rightarrow>
                 if c = CHR '','' then parse_elements lit (acc @ [v]) r'
                 else if c = CHR '']'' then Some (JArr (acc @ [v]), r')
                 else None)
          else None)"
| "parse_members lit acc s =
     (case skip_ws s of
        [] \<Rightarrow> None
      | c # cs \<Rightarrow>
          if c = CHR 0x22 then
            (case parse_chars cs of
               None \<Rightarrow> None
             | Some (its, r) \<Rightarrow>
                 (case skip_ws r of
                    [] \<Rightarrow> None
                  | c' # r' \<Rightarrow>
                      if c' = CHR '':'' \<and> length r' < length s then
                        (case parse_value lit r' of
                           None \<Rightarrow> None
                         | Some (v, r'') \<Rightarrow>
                             if length r'' < length r' then
                               (case skip_ws r'' of
                                  [] \<Rightarrow> None
                                | c'' # r''' \<Rightarrow>
                                    if c'' = CHR '','' then
                                      parse_members lit
                                        (define_property acc (string_of_items its) v) r'''
                                    else if c'' = CHR ''}'' then
                                      Some (JObj (define_property acc (string_of_items its) v), r''')
                                    else None)
                             else None)
                      else None))
          else None)"
  by pat_completeness auto

termination
  by (relation "measure (\<lambda>x. case x of
      Inl (lit, s) \<Rightarrow> 2 * length s
    | Inr (Inl (lit, acc, s)) \<Rightarrow> 2 * length s + 1
    | Inr (Inr (lit, acc, s)) \<Rightarrow> 2 * length s + 1)")
    (auto dest!: skip_ws_Cons_shorter)

declare parse_value.simps [simp del]
declare parse_elements.simps [simp del]
declare parse_members.simps [simp del]

text \<open>The whole text must be one value, with white space around it at most.\<close>

definition JSON_parse :: "(string \<Rightarrow> 'n) \<Rightarrow> string \<Rightarrow> error + 'n jsval" where
  "JSON_parse lit s =
     (case parse_value lit s of
        None \<Rightarrow> Inl SyntaxError
      | Some (v, r) \<Rightarrow> if skip_ws r = [] then Inr v else Inl SyntaxError)"

section \<open>Buffer: base64 and UTF-8\<close>












section \<open>DiagramConfig: the local-storage setting\<close>

text \<open>
  What the platform does with a number, for a number type \<open>'n\<close>: the text
  \<^verbatim>\<open>JSON.stringify\<close> writes for it, the number \<^verbatim>\<open>JSON.parse\<close> reads from a literal, and
  \<^verbatim>\<open>ToBoolean\<close>.
\<close>

record 'n numbers =
  to_json :: "'n \<Rightarrow> string"
  of_literal :: "string \<Rightarrow> 'n"
  truthy :: "'n \<Rightarrow> bool"













text \<open>
  An instance of the parameters for the examples: the integers, a literal read up to
  its integer part, and a helper \<^verbatim>\<open>mapObject\<close> that maps the values of an object.
\<close>

definition int_of_literal :: "string \<Rightarrow> int" where
  "int_of_literal s =
     (case s of
        [] \<Rightarrow> 0
      | c # cs \<Rightarrow>
          if c = CHR ''-''
          then - int (foldl (\<lambda>a d. 10 * a + (of_char d - 48)) 0 (takeWhile is_digit cs))
          else int (foldl (\<lambda>a d. 10 * a + (of_char d - 48)) 0 (takeWhile is_digit s)))"

definition integers :: "int numbers" where
  "integers = \<lparr>to_json = Number_toString, of_literal = int_of_literal, truthy = (\<lambda>i. i \<noteq> 0)\<rparr>"



section \<open>DiagramConfig: template expansion, plugins and custom libraries\<close>

definition placeholder :: string where
  "placeholder = ''${workspaceFolder}''"

text \<open>
  Modelled from the spec: the class \<^verbatim>\<open>SimpleTemplate\<close> of \<^verbatim>\<open>utils/SimpleTemplate\<close> is not
  among the sources. It is ``a minimal template-substitution facility resolving one
  recognized placeholder, \<^verbatim>\<open>workspaceFolder\<close>'': \<^verbatim>\<open>render\<close> copies the template and puts, in
  place of every occurrence of the placeholder, what the entry \<^verbatim>\<open>workspaceFolder\<close> of its
  argument returns. That entry is a function; \<open>resolve\<close> is the outcome of calling it (the
  string it returns or the error it throws), and it is called only where the
  placeholder occurs.
\<close>

fun SimpleTemplate_render :: "string \<Rightarrow> error + string \<Rightarrow> error + string" where
  "SimpleTemplate_render [] resolve = Inr []"
| "SimpleTemplate_render (c # cs) resolve =
     (if take 18 (c # cs) = placeholder then
        (case resolve of
           Inl e \<Rightarrow> Inl e
         | Inr path \<Rightarrow>
             (case SimpleTemplate_render (drop 17 cs) resolve of
                Inl e \<Rightarrow> Inl e
              | Inr rest \<Rightarrow> Inr (path @ rest)))
      else
        (case SimpleTemplate_render cs resolve of
           Inl e \<Rightarrow> Inl e
         | Inr rest \<Rightarrow> Inr (c # rest)))"

definition no_workspace :: error where
  "no_workspace =
     Error (''No workspace is opened - '' @ [CHR 0x27] @ ''${workspaceFolder} cannot be used''
            @ [CHR 0x27] @ ''!'')"

text \<open>
  \<^verbatim>\<open>DiagramConfig.evaluateTemplate\<close>. \<open>workspaceFolder\<close> is the \<^verbatim>\<open>uri.fsPath\<close> of
  \<^verbatim>\<open>workspace.getWorkspaceFolder(this.uri)\<close>, or \<open>None\<close> when the document lies in no
  workspace folder.
\<close>

definition evaluateTemplate :: "string option \<Rightarrow> string \<Rightarrow> error + string" where
  "evaluateTemplate workspaceFolder template =
     SimpleTemplate_render template
       (case workspaceFolder of
          None \<Rightarrow> Inl no_workspace
        | Some fsPath \<Rightarrow> Inr fsPath)"

text \<open>\<^verbatim>\<open>Array.prototype.map\<close> with a callback that can throw: the first exception ends it.\<close>

fun Array_map :: "('a \<Rightarrow> error + 'b) \<Rightarrow> 'a list \<Rightarrow> error + 'b list" where
  "Array_map f [] = Inr []"
| "Array_map f (x # xs) =
     (case f x of
        Inl e \<Rightarrow> Inl e
      | Inr y \<Rightarrow> (case Array_map f xs of Inl e \<Rightarrow> Inl e | Inr ys \<Rightarrow> Inr (y # ys)))"

text \<open>The getter \<^verbatim>\<open>plugins\<close>; the setting \<^verbatim>\<open>_plugins\<close> has the default \<^verbatim>\<open>[]\<close>.\<close>

text \<open>An element \<^verbatim>\<open>{ file }\<close> of the setting.\<close>

record PluginEntry =
  entry_file :: string

definition plugins :: "string option \<Rightarrow> PluginEntry list option \<Rightarrow> error + PluginEntry list" where
  "plugins workspaceFolder setting =
     Array_map
       (\<lambda>entry.
          case evaluateTemplate workspaceFolder (entry_file entry) of
            Inl e \<Rightarrow> Inl e
          | Inr fullFilePath \<Rightarrow> Inr \<lparr>entry_file = fullFilePath\<rparr>)
       (VsCodeSetting_get [] setting)"

text \<open>
  The type \<^verbatim>\<open>DrawioCustomLibrary\<close>: one of four sources, with \<^verbatim>\<open>libName\<close> and \<^verbatim>\<open>entryId\<close>;
  and \<^verbatim>\<open>DrawioLibraryData\<close>, whose \<^verbatim>\<open>data\<close> is \<^verbatim>\<open>{kind: "value"}\<close> or \<^verbatim>\<open>{kind: "url"}\<close>.
\<close>

datatype LibrarySource =
    Xml string
  | Url string
  | Json string
  | File string

record DrawioLibrary =
  libName :: string
  entryId :: string

record DrawioCustomLibrary = DrawioLibrary +
  source :: LibrarySource

datatype 'n LibraryContent =
    Value_kind "'n jsval"
  | Url_kind string

record 'n DrawioLibraryData = DrawioLibrary +
  data :: "'n LibraryContent"

text \<open>
  The promise of \<^verbatim>\<open>normalizeLib\<close> up to its first \<^verbatim>\<open>await\<close>: it is rejected or resolved
  at once, or it waits for \<^verbatim>\<open>workspace.fs.readFile\<close> on a file.
\<close>

datatype 'a started =
    Rejected error
  | Resolved 'a
  | Reading string

definition library_data :: "DrawioCustomLibrary \<Rightarrow> 'n LibraryContent \<Rightarrow> 'n DrawioLibraryData" where
  "library_data lib d = \<lparr>libName = libName lib, entryId = entryId lib, data = d\<rparr>"

text \<open>
  \<^verbatim>\<open>normalizeLib\<close> in its two parts. \<^verbatim>\<open>parseJson\<close> is \<^verbatim>\<open>JSON.parse\<close>; \<^verbatim>\<open>parseXml\<close> (the package
  \<^verbatim>\<open>xml-parser-xo\<close>) and \<^verbatim>\<open>readFile\<close> (the file system, with the decoding of the buffer) are
  parameters.
\<close>

definition normalizeLib_start ::
  "'n numbers \<Rightarrow> (string \<Rightarrow> error + 'n jsval) \<Rightarrow> string option \<Rightarrow> DrawioCustomLibrary
     \<Rightarrow> 'n DrawioLibraryData started" where
  "normalizeLib_start N parseXml workspaceFolder lib =
     (case source lib of
        Json json \<Rightarrow>
          (case JSON_parse (of_literal N) json of
             Inl e \<Rightarrow> Rejected e
           | Inr v \<Rightarrow> Resolved (library_data lib (Value_kind v)))
      | Xml xml \<Rightarrow>
          (case parseXml xml of
             Inl e \<Rightarrow> Rejected e
           | Inr v \<Rightarrow> Resolved (library_data lib (Value_kind v)))
      | File template \<Rightarrow>
          (case evaluateTemplate workspaceFolder template of
             Inl e \<Rightarrow> Rejected e
           | Inr path \<Rightarrow> Reading path)
      | Url url \<Rightarrow> Resolved (library_data lib (Url_kind url)))"

definition normalizeLib_read ::
  "'n numbers \<Rightarrow> (string \<Rightarrow> error + 'n jsval) \<Rightarrow> (string \<Rightarrow> error + string)
     \<Rightarrow> DrawioCustomLibrary \<Rightarrow> string \<Rightarrow> error + 'n DrawioLibraryData" where
  "normalizeLib_read N parseXml readFile lib path =
     (case readFile path of
        Inl e \<Rightarrow> Inl e
      | Inr content \<Rightarrow>
          (case (if suffix ''.json'' path then JSON_parse (of_literal N) content
                 else parseXml content) of
             Inl e \<Rightarrow> Inl e
           | Inr v \<Rightarrow> Inr (library_data lib (Value_kind v))))"

text \<open>
  The getter \<^verbatim>\<open>customLibraries\<close>: \<^verbatim>\<open>Promise.all\<close> over the promises of \<^verbatim>\<open>normalizeLib\<close>. A
  promise that is rejected before its first \<^verbatim>\<open>await\<close> rejects the whole before any file
  has been read, the first in the list first. Among the promises that read a file the
  model takes the first in the list that fails; which one fails first in time is not
  decided by the code.
\<close>

fun first_rejected :: "'a started list \<Rightarrow> error option" where
  "first_rejected [] = None"
| "first_rejected (Rejected e # ps) = Some e"
| "first_rejected (p # ps) = first_rejected ps"

definition customLibraries ::
  "'n numbers \<Rightarrow> (string \<Rightarrow> error + 'n jsval) \<Rightarrow> (string \<Rightarrow> error + string) \<Rightarrow> string option
     \<Rightarrow> DrawioCustomLibrary list option \<Rightarrow> error + 'n DrawioLibraryData list" where
  "customLibraries N parseXml readFile workspaceFolder setting =
     (let libs = VsCodeSetting_get [] setting;
          promises = map (normalizeLib_start N parseXml workspaceFolder) libs
      in case first_rejected promises of
           Some e \<Rightarrow> Inl e
         | None \<Rightarrow>
             Array_map
               (\<lambda>(lib, p).
                  case p of
                    Rejected e \<Rightarrow> Inl e
                  | Resolved d \<Rightarrow> Inr d
                  | Reading path \<Rightarrow> normalizeLib_read N parseXml readFile lib path)
               (zip libs promises))"

text \<open>Example settings.\<close>

definition example_plugins :: "PluginEntry list option" where
  "example_plugins =
     Some [\<lparr>entry_file = ''/opt/drawio/a.js''\<rparr>, \<lparr>entry_file = ''${workspaceFolder}/plugins/b.js''\<rparr>]"

definition example_libraries :: "DrawioCustomLibrary list option" where
  "example_libraries =
     Some [\<lparr>libName = ''icons'', entryId = ''1'', source = Url ''https://example.org/icons.xml''\<rparr>,
           \<lparr>libName = ''shapes'', entryId = ''2'', source = File ''${workspaceFolder}/shapes.json''\<rparr>]"

text \<open>
  A setting whose first library has a \<^verbatim>\<open>json\<close> text that \<^verbatim>\<open>JSON.parse\<close> refuses, and whose
  second library is a file below the workspace folder.
\<close>

definition broken_libraries :: "DrawioCustomLibrary list option" where
  "broken_libraries =
     Some [\<lparr>libName = ''broken'', entryId = ''1'', source = Json ''{''\<rparr>,
           \<lparr>libName = ''shapes'', entryId = ''2'', source = File ''${workspaceFolder}/shapes.json''\<rparr>]"

definition no_files :: "string \<Rightarrow> error + string" where
  "no_files path = Inl (Error ''ENOENT'')"

definition no_xml :: "string \<Rightarrow> error + int jsval" where
  "no_xml xml = Inl (Error ''invalid XML'')"

section \<open>Properties of SessionModel\<close>

lemma get_after_set: "ObservableMap_get (ObservableMap_set this k v) k = v"
  by (simp add: ObservableMap_get_def ObservableMap_set_def)

lemma apply_update_cases:
  "SessionModel_apply num s (updateViewState p v) =
     (if JSON_stringify num (ObservableMap_get s p)
          = JSON_stringify num (JObj [(''peerId'', JNum p), (''viewState'', v)])
      then s
      else ObservableMap_set s p (JObj [(''peerId'', JNum p), (''viewState'', v)]))"
  by (simp add: Let_def)



text \<open>
  An update whose candidate entry has the text of the candidate of the update before
  it, for the same peer, changes nothing.
\<close>

lemma apply_equal_text_again:
  assumes same: "JSON_stringify num (JObj [(''peerId'', JNum p), (''viewState'', a)])
      = JSON_stringify num (JObj [(''peerId'', JNum p), (''viewState'', b)])"
  shows "SessionModel_apply num (SessionModel_apply num s (updateViewState p a))
      (updateViewState p b) = SessionModel_apply num s (updateViewState p a)"
proof (cases "JSON_stringify num (ObservableMap_get s p)
    = JSON_stringify num (JObj [(''peerId'', JNum p), (''viewState'', a)])")
  case True
  have first: "SessionModel_apply num s (updateViewState p a) = s"
    by (subst apply_update_cases) (rule if_P [OF True])
  from True same have stored: "JSON_stringify num (ObservableMap_get s p)
      = JSON_stringify num (JObj [(''peerId'', JNum p), (''viewState'', b)])"
    by (rule trans)
  have "SessionModel_apply num s (updateViewState p b) = s"
    by (subst apply_update_cases) (rule if_P [OF stored])
  then show ?thesis
    by (simp only: first)
next
  case False
  let ?new = "JObj [(''peerId'', JNum p), (''viewState'', a)]"
  have first: "SessionModel_apply num s (updateViewState p a) = ObservableMap_set s p ?new"
    by (subst apply_update_cases) (rule if_not_P [OF False])
  have stored: "JSON_stringify num (ObservableMap_get (ObservableMap_set s p ?new) p)
      = JSON_stringify num (JObj [(''peerId'', JNum p), (''viewState'', b)])"
    using same by (simp only: get_after_set)
  have "SessionModel_apply num (ObservableMap_set s p ?new) (updateViewState p b)
      = ObservableMap_set s p ?new"
    by (subst apply_update_cases) (rule if_P [OF stored])
  then show ?thesis
    by (simp only: first)
qed



text \<open>
  C2. An update of kind \<^verbatim>\<open>removePeer\<close> or \<^verbatim>\<open>updateCursor\<close> leaves the model as it is: the
  map has the same entries and no notification is fired. No sequence of \<^verbatim>\<open>apply\<close> calls
  removes a peer: every key of the map is still a key afterwards.
\<close>

theorem unhandled_updates_change_nothing:
  "SessionModel_apply num s (removePeer p) = s
   \<and> SessionModel_apply num s (updateCursor p c) = s
   \<and> dom (viewStatesByPeerId s) \<subseteq> dom (viewStatesByPeerId (apply_all num s us))"
proof -
  have step: "dom (viewStatesByPeerId t) \<subseteq> dom (viewStatesByPeerId (SessionModel_apply num t u))"
    for t :: "'a SessionModel" and u
    by (cases u) (auto simp: Let_def ObservableMap_set_def)
  have "dom (viewStatesByPeerId s) \<subseteq> dom (viewStatesByPeerId (apply_all num s us))"
    unfolding apply_all_def
  proof (induction us arbitrary: s)
    case Nil
    show ?case by simp
  next
    case (Cons u us)
    have "dom (viewStatesByPeerId s) \<subseteq> dom (viewStatesByPeerId (SessionModel_apply num s u))"
      by (rule step)
    also have "\<dots> \<subseteq> dom (viewStatesByPeerId
        (foldl (SessionModel_apply num) (SessionModel_apply num s u) us))"
      by (rule Cons.IH)
    finally show ?case by simp
  qed
  then show ?thesis by simp
qed

text \<open>
  C6. For a peer with no entry in the map, an \<^verbatim>\<open>updateViewState\<close> update always mutates:
  the serialization of the absent entry (\<^verbatim>\<open>undefined\<close>) differs from the text of every
  candidate, the candidate is stored under the peer's id and one notification is fired,
  whatever the new view state is, \<^verbatim>\<open>undefined\<close> included.
\<close>

theorem first_update_of_new_peer_mutates:
  "viewStatesByPeerId s p = None \<Longrightarrow>
     JSON_stringify num (ObservableMap_get s p)
       \<noteq> JSON_stringify num (JObj [(''peerId'', JNum p), (''viewState'', v)])
     \<and> viewStatesByPeerId (SessionModel_apply num s (updateViewState p v)) p
       = Some (JObj [(''peerId'', JNum p), (''viewState'', v)])
     \<and> notifications (SessionModel_apply num s (updateViewState p v)) = notifications s @ [p]"
  by (simp add: ObservableMap_get_def ObservableMap_set_def Let_def)

theorem first_update_of_new_peer_mutates_witness:
  "viewStatesByPeerId (new_SessionModel :: int SessionModel) 1 = None
   \<and> viewStatesByPeerId (SessionModel_apply Number_toString new_SessionModel
        (updateViewState 1 JUndefined)) 1
       = Some (JObj [(''peerId'', JNum 1), (''viewState'', JUndefined)])
   \<and> notifications (SessionModel_apply Number_toString new_SessionModel
        (updateViewState 1 JUndefined)) = [1]"
proof -
  have absent: "viewStatesByPeerId (new_SessionModel :: int SessionModel) 1 = None"
    by (simp add: new_SessionModel_def)
  show ?thesis
    using first_update_of_new_peer_mutates [OF absent, of Number_toString JUndefined] absent
    by (simp add: new_SessionModel_def ObservableMap_get_def ObservableMap_set_def)
qed

text \<open>
  C10. An \<^verbatim>\<open>updateViewState\<close> update for peer \<open>p\<close> leaves the entry of every other peer
  \<open>q\<close>, present or absent, as it was.
\<close>

theorem apply_touches_only_its_peer:
  "q \<noteq> p \<Longrightarrow>
     viewStatesByPeerId (SessionModel_apply num s (updateViewState p v)) q
       = viewStatesByPeerId s q"
  by (simp add: ObservableMap_set_def Let_def)

theorem apply_touches_only_its_peer_witness:
  "(2::int) \<noteq> 1
   \<and> viewStatesByPeerId
       (SessionModel_apply Number_toString
          (SessionModel_apply Number_toString new_SessionModel (updateViewState 2 JUndefined))
          (updateViewState 1 viewState_uri_first)) 2
     = Some (JObj [(''peerId'', JNum 2), (''viewState'', JUndefined)])"
proof -
  have other: "(2::int) \<noteq> 1"
    by simp
  show ?thesis
    using apply_touches_only_its_peer [OF other, of Number_toString
        "SessionModel_apply Number_toString new_SessionModel (updateViewState 2 JUndefined)"
        viewState_uri_first]
    by (simp add: new_SessionModel_def ObservableMap_get_def ObservableMap_set_def)
qed

section \<open>The dedup comparison\<close>

lemma same_content_same_order:
  "canonical a = canonical b \<Longrightarrow> key_order a = key_order b \<Longrightarrow> distinct_keys b \<Longrightarrow> a = b"
proof (induction a arbitrary: b)
  case (JArr xs)
  then obtain ys where b: "b = JArr ys"
    by (cases b) auto
  from JArr.prems have len: "length xs = length ys"
    unfolding b by (auto dest: map_eq_imp_length_eq)
  have "xs ! i = ys ! i" if i: "i < length xs" for i
  proof (rule JArr.IH)
    show "xs ! i \<in> set xs" using i by simp
    from JArr.prems(1) have "map canonical xs ! i = map canonical ys ! i"
      unfolding b by simp
    then show "canonical (xs ! i) = canonical (ys ! i)"
      using i len by simp
    from JArr.prems(2) have "map key_order xs ! i = map key_order ys ! i"
      unfolding b by simp
    then show "key_order (xs ! i) = key_order (ys ! i)"
      using i len by simp
    from JArr.prems(3) show "distinct_keys (ys ! i)"
      unfolding b using i len by (simp add: list_all_iff)
  qed
  with len show ?case
    unfolding b by (simp add: nth_equalityI)
next
  case (JObj kvs)
  then obtain kvs' where b: "b = JObj kvs'"
    by (cases b) auto
  let ?A = "map (map_prod id canonical) kvs"
  let ?B = "map (map_prod id canonical) kvs'"
  from JObj.prems(2) have ko: "map (map_prod id key_order) kvs = map (map_prod id key_order) kvs'"
    unfolding b by simp
  then have len: "length kvs = length kvs'"
    by (rule map_eq_imp_length_eq)
  have keys: "fst (kvs ! i) = fst (kvs' ! i)" and
       kos: "key_order (snd (kvs ! i)) = key_order (snd (kvs' ! i))" if i: "i < length kvs" for i
  proof -
    from ko have "map (map_prod id key_order) kvs ! i = map (map_prod id key_order) kvs' ! i"
      by simp
    then have "map_prod id key_order (kvs ! i) = map_prod id key_order (kvs' ! i)"
      using i len by simp
    then show "fst (kvs ! i) = fst (kvs' ! i)" "key_order (snd (kvs ! i)) = key_order (snd (kvs' ! i))"
      by (cases "kvs ! i"; cases "kvs' ! i"; simp)+
  qed
  from JObj.prems(3) have dist: "distinct (map fst kvs')"
    unfolding b by simp
  from JObj.prems(1) have "sort_key fst ?A = sort_key fst ?B"
    unfolding b by simp
  then have "set (sort_key fst ?A) = set (sort_key fst ?B)"
    by simp
  then have sets: "set ?A = set ?B"
    by (simp only: set_sort)
  have vals: "canonical (snd (kvs ! i)) = canonical (snd (kvs' ! i))" if i: "i < length kvs" for i
  proof -
    have "?A ! i \<in> set ?B"
      using sets i by (metis length_map nth_mem)
    then obtain j where j: "j < length kvs'" and eq: "?B ! j = ?A ! i"
      by (metis in_set_conv_nth length_map)
    from eq have "fst (kvs' ! j) = fst (kvs ! i)"
      using i j by (cases "kvs ! i"; cases "kvs' ! j") simp
    then have same: "map fst kvs' ! j = map fst kvs' ! i"
      using keys [OF i] i j len by simp
    have jl: "j < length (map fst kvs')" and il: "i < length (map fst kvs')"
      using i j len by simp_all
    have "j = i"
      using nth_eq_iff_index_eq [OF dist jl il] same by simp
    with eq show ?thesis
      using i len by (cases "kvs ! i"; cases "kvs' ! i") simp
  qed
  have "kvs ! i = kvs' ! i" if i: "i < length kvs" for i
  proof -
    have "snd (kvs ! i) = snd (kvs' ! i)"
    proof (rule JObj.IH)
      show "kvs ! i \<in> set kvs" using i by simp
      show "snd (kvs ! i) \<in> Basic_BNFs.snds (kvs ! i)"
        by (cases "kvs ! i") simp
      show "canonical (snd (kvs ! i)) = canonical (snd (kvs' ! i))"
        by (rule vals [OF i])
      show "key_order (snd (kvs ! i)) = key_order (snd (kvs' ! i))"
        by (rule kos [OF i])
      from JObj.prems(3) have "list_all snd (map (map_prod id distinct_keys) kvs')"
        unfolding b by simp
      then have "snd (map_prod id distinct_keys (kvs' ! i))"
        using i len by (simp add: list_all_iff)
      then show "distinct_keys (snd (kvs' ! i))"
        by (cases "kvs' ! i") simp
    qed
    with keys [OF i] show ?thesis
      by (simp add: prod_eq_iff)
  qed
  with len show ?case
    unfolding b by (simp add: nth_equalityI)
next
  case JUndefined
  then show ?case by (cases b) simp_all
next
  case JNull
  then show ?case by (cases b) simp_all
next
  case (JBool x)
  then show ?case by (cases b) simp_all
next
  case (JNum x)
  then show ?case by (cases b) simp_all
next
  case (JStr x)
  then show ?case by (cases b) simp_all
qed


lemma set_changes: "ObservableMap_set s p v \<noteq> s"
proof
  assume "ObservableMap_set s p v = s"
  then have "notifications (ObservableMap_set s p v) = notifications s"
    by (simp only:)
  then show False
    by (simp add: ObservableMap_set_def)
qed

lemma apply_unchanged_iff:
  "(SessionModel_apply num s (updateViewState p v) = s)
     = (JSON_stringify num (ObservableMap_get s p)
          = JSON_stringify num (JObj [(''peerId'', JNum p), (''viewState'', v)]))"
  by (simp add: apply_update_cases set_changes)

lemma stored_text_after_apply:
  "JSON_stringify num (ObservableMap_get (SessionModel_apply num s (updateViewState p v)) p)
     = JSON_stringify num (JObj [(''peerId'', JNum p), (''viewState'', v)])"
proof (cases "JSON_stringify num (ObservableMap_get s p)
    = JSON_stringify num (JObj [(''peerId'', JNum p), (''viewState'', v)])")
  case True
  have "SessionModel_apply num s (updateViewState p v) = s"
    by (subst apply_update_cases) (rule if_P [OF True])
  then show ?thesis
    by (simp only: True)
next
  case False
  have "SessionModel_apply num s (updateViewState p v)
      = ObservableMap_set s p (JObj [(''peerId'', JNum p), (''viewState'', v)])"
    by (subst apply_update_cases) (rule if_not_P [OF False])
  then show ?thesis
    by (simp only: get_after_set)
qed

lemma no_cursor_texts_differ:
  "JSON_stringify num (JObj [(''peerId'', JNum p), (''viewState'', no_cursor_uri_first)])
     \<noteq> JSON_stringify num (JObj [(''peerId'', JNum p), (''viewState'', no_cursor_ids_first)])"
proof -
  have a: "JSON_stringify num no_cursor_uri_first
      = Some (''{'' @ QuoteJSONString ''activeUri'' @ '':'' @ QuoteJSONString ''file:///a.drawio''
          @ '','' @ QuoteJSONString ''selectedCellIds'' @ '':['' @ QuoteJSONString ''2'' @ '']}'')"
    by (simp add: no_cursor_uri_first_def List.map_filter_simps)
  have b: "JSON_stringify num no_cursor_ids_first
      = Some (''{'' @ QuoteJSONString ''selectedCellIds'' @ '':['' @ QuoteJSONString ''2'' @ ''],''
          @ QuoteJSONString ''activeUri'' @ '':'' @ QuoteJSONString ''file:///a.drawio'' @ ''}'')"
    by (simp add: no_cursor_ids_first_def List.map_filter_simps)
  have q: "QuoteJSONString ''activeUri'' = CHR 0x22 # ''activeUri'' @ [CHR 0x22]"
    "QuoteJSONString ''selectedCellIds'' = CHR 0x22 # ''selectedCellIds'' @ [CHR 0x22]"
    by (simp_all add: QuoteJSONString_def QuoteJSONChar_def)
  show ?thesis
    by (simp add: List.map_filter_simps a b q)
qed

text \<open>
  C3 (as amended). The comparison of \<^verbatim>\<open>SessionModel.apply\<close> is equality of the
  \<^verbatim>\<open>JSON.stringify\<close> texts of the stored entry and the candidate: an update leaves the
  model as it is exactly when the two texts are equal, and stores the candidate and
  notifies otherwise. Two view states with equal contents whose objects list their keys
  in the same order have candidates with the same text, so that the second of two such
  updates changes nothing. The order of the keys does affect the result: for every
  peer and every state there are two well-typed view states with equal contents and a
  different key order whose candidates have different texts, and the second of the two
  updates changes the model.
\<close>

theorem dedup_compares_json_texts:
  "(SessionModel_apply num s (updateViewState p v) = s)
     = (JSON_stringify num (ObservableMap_get s p)
          = JSON_stringify num (JObj [(''peerId'', JNum p), (''viewState'', v)]))
   \<and> (SessionModel_apply num s (updateViewState p v) \<noteq> s \<longrightarrow>
        SessionModel_apply num s (updateViewState p v)
          = ObservableMap_set s p (JObj [(''peerId'', JNum p), (''viewState'', v)]))
   \<and> (deep_equal a b \<and> key_order a = key_order b \<and> distinct_keys b \<longrightarrow>
        JSON_stringify num (JObj [(''peerId'', JNum p), (''viewState'', a)])
          = JSON_stringify num (JObj [(''peerId'', JNum p), (''viewState'', b)])
        \<and> SessionModel_apply num (SessionModel_apply num s (updateViewState p a))
            (updateViewState p b) = SessionModel_apply num s (updateViewState p a))
   \<and> is_ViewState (no_cursor_uri_first :: 'n jsval)
   \<and> is_ViewState (no_cursor_ids_first :: 'n jsval)
   \<and> deep_equal (no_cursor_uri_first :: 'n jsval) no_cursor_ids_first
   \<and> JSON_stringify num (JObj [(''peerId'', JNum p), (''viewState'', no_cursor_uri_first)])
       \<noteq> JSON_stringify num (JObj [(''peerId'', JNum p), (''viewState'', no_cursor_ids_first)])
   \<and> SessionModel_apply num (SessionModel_apply num s (updateViewState p no_cursor_uri_first))
         (updateViewState p no_cursor_ids_first)
       \<noteq> SessionModel_apply num s (updateViewState p no_cursor_uri_first)"
proof (intro conjI impI)
  show "(SessionModel_apply num s (updateViewState p v) = s)
     = (JSON_stringify num (ObservableMap_get s p)
          = JSON_stringify num (JObj [(''peerId'', JNum p), (''viewState'', v)]))"
    by (rule apply_unchanged_iff)
next
  assume "SessionModel_apply num s (updateViewState p v) \<noteq> s"
  then show "SessionModel_apply num s (updateViewState p v)
      = ObservableMap_set s p (JObj [(''peerId'', JNum p), (''viewState'', v)])"
    by (simp add: apply_update_cases split: if_splits)
next
  assume h: "deep_equal a b \<and> key_order a = key_order b \<and> distinct_keys b"
  then have "a = b"
    unfolding deep_equal_def by (blast intro: same_content_same_order)
  then show same: "JSON_stringify num (JObj [(''peerId'', JNum p), (''viewState'', a)])
       = JSON_stringify num (JObj [(''peerId'', JNum p), (''viewState'', b)])"
    by (simp only:)
  then show "SessionModel_apply num (SessionModel_apply num s (updateViewState p a))
      (updateViewState p b) = SessionModel_apply num s (updateViewState p a)"
    by (rule apply_equal_text_again)
next
  show "is_ViewState (no_cursor_uri_first :: 'n jsval)"
    by (simp add: is_ViewState_def no_cursor_uri_first_def property_def is_string_def)
  show "is_ViewState (no_cursor_ids_first :: 'n jsval)"
    by (simp add: is_ViewState_def no_cursor_ids_first_def property_def is_string_def)
  show "deep_equal (no_cursor_uri_first :: 'n jsval) no_cursor_ids_first"
    by (simp add: deep_equal_def no_cursor_uri_first_def no_cursor_ids_first_def)
  show differ: "JSON_stringify num (JObj [(''peerId'', JNum p), (''viewState'', no_cursor_uri_first)])
       \<noteq> JSON_stringify num (JObj [(''peerId'', JNum p), (''viewState'', no_cursor_ids_first)])"
    by (rule no_cursor_texts_differ)
  let ?s1 = "SessionModel_apply num s (updateViewState p no_cursor_uri_first)"
  have "JSON_stringify num (ObservableMap_get ?s1 p)
      \<noteq> JSON_stringify num (JObj [(''peerId'', JNum p), (''viewState'', no_cursor_ids_first)])"
    unfolding stored_text_after_apply by (rule differ)
  moreover have "(SessionModel_apply num ?s1 (updateViewState p no_cursor_ids_first) = ?s1)
      = (JSON_stringify num (ObservableMap_get ?s1 p)
          = JSON_stringify num (JObj [(''peerId'', JNum p), (''viewState'', no_cursor_ids_first)]))"
    by (rule apply_unchanged_iff)
  ultimately show "SessionModel_apply num ?s1 (updateViewState p no_cursor_ids_first) \<noteq> ?s1"
    by blast
qed

theorem dedup_compares_json_texts_witness:
  "deep_equal viewState_uri_first viewState_uri_first
   \<and> distinct_keys viewState_uri_first
   \<and> SessionModel_apply Number_toString
        (SessionModel_apply Number_toString new_SessionModel
           (updateViewState 1 viewState_uri_first))
        (updateViewState 1 viewState_uri_first)
     = SessionModel_apply Number_toString new_SessionModel (updateViewState 1 viewState_uri_first)
   \<and> SessionModel_apply Number_toString new_SessionModel (updateViewState 1 viewState_uri_first)
     \<noteq> new_SessionModel
   \<and> SessionModel_apply Number_toString new_SessionModel (updateViewState 1 viewState_uri_first)
     = ObservableMap_set new_SessionModel 1
         (JObj [(''peerId'', JNum 1), (''viewState'', viewState_uri_first)])"
proof -
  have eq: "deep_equal viewState_uri_first viewState_uri_first"
    by (simp add: deep_equal_def)
  have dk: "distinct_keys viewState_uri_first"
    by (simp add: viewState_uri_first_def)
  have absent: "JSON_stringify Number_toString (ObservableMap_get new_SessionModel 1)
      \<noteq> JSON_stringify Number_toString
          (JObj [(''peerId'', JNum 1), (''viewState'', viewState_uri_first)])"
    by (simp add: ObservableMap_get_def new_SessionModel_def)
  from dedup_compares_json_texts [of Number_toString new_SessionModel 1 viewState_uri_first
      viewState_uri_first viewState_uri_first] eq dk absent
  show ?thesis
    by blast
qed

text \<open>
  C3 as stated fails: the comparison depends on the order of the keys. The two view
  states below are well-typed and deep-equal, yet their candidates have different texts,
  and the second update is stored and notified instead of collapsing to a no-op.
\<close>

theorem dedup_key_order_counterexample:
  "is_ViewState viewState_uri_first
   \<and> is_ViewState viewState_ids_first
   \<and> deep_equal viewState_uri_first viewState_ids_first
   \<and> JSON_stringify Number_toString (JObj [(''peerId'', JNum 1), (''viewState'', viewState_uri_first)])
     \<noteq> JSON_stringify Number_toString (JObj [(''peerId'', JNum 1), (''viewState'', viewState_ids_first)])
   \<and> fired (SessionModel_apply Number_toString new_SessionModel (updateViewState 1 viewState_uri_first))
       (SessionModel_apply Number_toString
          (SessionModel_apply Number_toString new_SessionModel (updateViewState 1 viewState_uri_first))
          (updateViewState 1 viewState_ids_first)) = 1"
  by code_simp

section \<open>Properties of CustomDrawioInstance\<close>

text \<open>
  C4. When the awaited response to the \<^verbatim>\<open>getVertices\<close> action has a tag other than
  \<^verbatim>\<open>getVertices\<close>, the promise of \<^verbatim>\<open>getVertices\<close> rejects with the error ``Invalid Response''
  (it never resolves to a default or an empty list); when the tag matches, it resolves
  to exactly the \<^verbatim>\<open>vertices\<close> carried by the response.
\<close>

theorem getVertices_checks_tag:
  assumes "sendCustomActionExpectResponse [(''action'', JStr ''getVertices'')] = Inr response"
  shows "(property response ''event'' \<noteq> JStr ''getVertices'' \<longrightarrow>
            getVertices sendCustomActionExpectResponse = Inl (Error ''Invalid Response''))
       \<and> (property response ''event'' = JStr ''getVertices'' \<longrightarrow>
            getVertices sendCustomActionExpectResponse = Inr (property response ''vertices''))"
  using assms by (simp add: getVertices_def)

theorem getVertices_checks_tag_witness:
  "getVertices (\<lambda>action. Inr autosave_event) = Inl (Error ''Invalid Response'')
   \<and> getVertices (\<lambda>action. Inr getVertices_response)
     = Inr (JArr [JObj [(''id'', JStr ''2''), (''label'', JStr ''Start'')]])"
proof -
  have a: "(\<lambda>action. Inr autosave_event :: error + int jsobject)
      [(''action'', JStr ''getVertices'')] = Inr autosave_event"
    by simp
  have b: "(\<lambda>action. Inr getVertices_response :: error + int jsobject)
      [(''action'', JStr ''getVertices'')] = Inr getVertices_response"
    by simp
  have ta: "property autosave_event ''event'' \<noteq> JStr ''getVertices''"
    by (simp add: autosave_event_def property_def)
  have tb: "property getVertices_response ''event'' = JStr ''getVertices''"
    by (simp add: getVertices_response_def property_def)
  have vb: "property getVertices_response ''vertices''
      = JArr [JObj [(''id'', JStr ''2''), (''label'', JStr ''Start'')]]"
    by (simp add: getVertices_response_def property_def)
  from getVertices_checks_tag [OF a] getVertices_checks_tag [OF b] ta tb vb
  show ?thesis
    by simp
qed

text \<open>
  C5. \<^verbatim>\<open>handleEvent\<close> dispatches by tag. Each of the five recognized tags fires the
  notification of its emitter, once, with the payload taken from the event:
  \<^verbatim>\<open>nodeSelected\<close> gives \<^verbatim>\<open>{label, linkedData}\<close>, \<^verbatim>\<open>pluginLoaded\<close> gives \<^verbatim>\<open>{pluginId}\<close>,
  \<^verbatim>\<open>focusChanged\<close> gives \<^verbatim>\<open>{hasFocus}\<close>, \<^verbatim>\<open>cursorChanged\<close> gives \<^verbatim>\<open>{newPosition}\<close> (the
  \<^verbatim>\<open>position\<close> of the event) and \<^verbatim>\<open>selectionChanged\<close> gives \<^verbatim>\<open>{selectedCellIds}\<close>. An event
  with any other tag is handed to the handler of the base class, and \<^verbatim>\<open>handleEvent\<close>
  finishes as that handler does, adding no error of its own.
\<close>

theorem handleEvent_dispatch:
  "(property evt ''event'' = JStr ''nodeSelected'' \<longrightarrow>
      handleEvent base evt = Emit onNodeSelectedEmitter
        (JObj [(''label'', property evt ''label''), (''linkedData'', property evt ''linkedData'')]))
   \<and> (property evt ''event'' = JStr ''pluginLoaded'' \<longrightarrow>
      handleEvent base evt = Emit onCustomPluginLoadedEmitter
        (JObj [(''pluginId'', property evt ''pluginId'')]))
   \<and> (property evt ''event'' = JStr ''focusChanged'' \<longrightarrow>
      handleEvent base evt = Emit onFocusChangedEmitter
        (JObj [(''hasFocus'', property evt ''hasFocus'')]))
   \<and> (property evt ''event'' = JStr ''cursorChanged'' \<longrightarrow>
      handleEvent base evt = Emit onCursorChangeEmitter
        (JObj [(''newPosition'', property evt ''position'')]))
   \<and> (property evt ''event'' = JStr ''selectionChanged'' \<longrightarrow>
      handleEvent base evt = Emit onSelectionsChangedEmitter
        (JObj [(''selectedCellIds'', property evt ''selectedCellIds'')]))
   \<and> (property evt ''event'' \<notin> {JStr ''nodeSelected'', JStr ''pluginLoaded'', JStr ''focusChanged'',
        JStr ''cursorChanged'', JStr ''selectionChanged''} \<longrightarrow>
      handleEvent base evt = Super (base evt))"
  by (simp add: handleEvent_def)

theorem handleEvent_dispatch_witness:
  "handleEvent (\<lambda>e. ()) nodeSelected_event
     = Emit onNodeSelectedEmitter (JObj [(''label'', JStr ''Start''), (''linkedData'', JNum 7)])
   \<and> handleEvent (\<lambda>e. ()) pluginLoaded_event
     = Emit onCustomPluginLoadedEmitter (JObj [(''pluginId'', JStr ''linkselectednode'')])
   \<and> handleEvent (\<lambda>e. ()) focusChanged_event
     = Emit onFocusChangedEmitter (JObj [(''hasFocus'', JBool True)])
   \<and> handleEvent (\<lambda>e. ()) cursorChanged_event
     = Emit onCursorChangeEmitter (JObj [(''newPosition'', JObj [(''x'', JNum 3), (''y'', JNum 4)])])
   \<and> handleEvent (\<lambda>e. ()) selectionChanged_event
     = Emit onSelectionsChangedEmitter (JObj [(''selectedCellIds'', JArr [JStr ''2'', JStr ''5''])])
   \<and> handleEvent (\<lambda>e. Inl (Error ''unknown event'') :: error + unit) autosave_event
     = Super (Inl (Error ''unknown event''))"
proof -
  have t1: "property nodeSelected_event ''event'' = JStr ''nodeSelected''"
    by (simp add: nodeSelected_event_def property_def)
  have t2: "property pluginLoaded_event ''event'' = JStr ''pluginLoaded''"
    by (simp add: pluginLoaded_event_def property_def)
  have t3: "property focusChanged_event ''event'' = JStr ''focusChanged''"
    by (simp add: focusChanged_event_def property_def)
  have t4: "property cursorChanged_event ''event'' = JStr ''cursorChanged''"
    by (simp add: cursorChanged_event_def property_def)
  have t5: "property selectionChanged_event ''event'' = JStr ''selectionChanged''"
    by (simp add: selectionChanged_event_def property_def)
  have t6: "property autosave_event ''event'' \<notin> {JStr ''nodeSelected'', JStr ''pluginLoaded'',
      JStr ''focusChanged'', JStr ''cursorChanged'', JStr ''selectionChanged''}"
    by (simp add: autosave_event_def property_def)
  have p1: "property nodeSelected_event ''label'' = JStr ''Start''"
    "property nodeSelected_event ''linkedData'' = JNum 7"
    by (simp_all add: nodeSelected_event_def property_def)
  have p2: "property pluginLoaded_event ''pluginId'' = JStr ''linkselectednode''"
    by (simp add: pluginLoaded_event_def property_def)
  have p3: "property focusChanged_event ''hasFocus'' = JBool True"
    by (simp add: focusChanged_event_def property_def)
  have p4: "property cursorChanged_event ''position'' = JObj [(''x'', JNum 3), (''y'', JNum 4)]"
    by (simp add: cursorChanged_event_def property_def)
  have p5: "property selectionChanged_event ''selectedCellIds'' = JArr [JStr ''2'', JStr ''5'']"
    by (simp add: selectionChanged_event_def property_def)
  from handleEvent_dispatch [of nodeSelected_event "\<lambda>e. ()"] t1 p1
  have r1: "handleEvent (\<lambda>e. ()) nodeSelected_event
     = Emit onNodeSelectedEmitter (JObj [(''label'', JStr ''Start''), (''linkedData'', JNum 7)])"
    by simp
  from handleEvent_dispatch [of pluginLoaded_event "\<lambda>e. ()"] t2 p2
  have r2: "handleEvent (\<lambda>e. ()) pluginLoaded_event
     = Emit onCustomPluginLoadedEmitter (JObj [(''pluginId'', JStr ''linkselectednode'')])"
    by simp
  from handleEvent_dispatch [of focusChanged_event "\<lambda>e. ()"] t3 p3
  have r3: "handleEvent (\<lambda>e. ()) focusChanged_event
     = Emit onFocusChangedEmitter (JObj [(''hasFocus'', JBool True)])"
    by simp
  from handleEvent_dispatch [of cursorChanged_event "\<lambda>e. ()"] t4 p4
  have r4: "handleEvent (\<lambda>e. ()) cursorChanged_event
     = Emit onCursorChangeEmitter (JObj [(''newPosition'', JObj [(''x'', JNum 3), (''y'', JNum 4)])])"
    by simp
  from handleEvent_dispatch [of selectionChanged_event "\<lambda>e. ()"] t5 p5
  have r5: "handleEvent (\<lambda>e. ()) selectionChanged_event
     = Emit onSelectionsChangedEmitter (JObj [(''selectedCellIds'', JArr [JStr ''2'', JStr ''5''])])"
    by simp
  from handleEvent_dispatch [of autosave_event "\<lambda>e. Inl (Error ''unknown event'') :: error + unit"] t6
  have r6: "handleEvent (\<lambda>e. Inl (Error ''unknown event'') :: error + unit) autosave_event
     = Super (Inl (Error ''unknown event''))"
    by simp
  from r1 r2 r3 r4 r5 r6 show ?thesis
    by (simp only: simp_thms)
qed

section \<open>Properties of the known-plugins setting\<close>

lemma find_filter_same:
  "find P (filter (\<lambda>x. \<not> P x) xs @ [y]) = (if P y then Some y else None)"
  by (induction xs) auto

lemma find_none_filter: "(find P xs = None) = (filter P xs = [])"
  by (induction xs) auto

text \<open>
  C9. \<^verbatim>\<open>addKnownPlugin\<close> replaces the decision stored for the key \<^verbatim>\<open>(pluginId, fingerprint)\<close>
  instead of appending a duplicate: afterwards exactly one decision is stored for that
  key, the new one, the decisions for all other keys are as before, and
  \<^verbatim>\<open>isPluginAllowed\<close> for the key returns the new value. \<^verbatim>\<open>isPluginAllowed\<close> returns
  \<^verbatim>\<open>undefined\<close> exactly for a key with no stored decision.
\<close>

theorem addKnownPlugin_replaces:
  "decisions_for (addKnownPlugin knownPlugins pid fp allow) pid fp
     = [\<lparr>pluginId = pid, fingerprint = fp, allowed = allow\<rparr>]
   \<and> other_decisions (addKnownPlugin knownPlugins pid fp allow) pid fp
     = other_decisions knownPlugins pid fp
   \<and> isPluginAllowed (addKnownPlugin knownPlugins pid fp allow) pid fp = Some allow
   \<and> (isPluginAllowed knownPlugins pid fp = None) = (decisions_for knownPlugins pid fp = [])"
proof -
  let ?key = "\<lambda>d. pluginId d = pid \<and> fingerprint d = fp"
  let ?old = "VsCodeSetting_get [] knownPlugins"
  let ?new = "\<lparr>pluginId = pid, fingerprint = fp, allowed = allow\<rparr>"
  have stored: "VsCodeSetting_get [] (addKnownPlugin knownPlugins pid fp allow)
      = filter (\<lambda>d. \<not> ?key d) ?old @ [?new]"
    by (simp add: addKnownPlugin_def VsCodeSetting_get_def VsCodeSetting_set_def)
  have one: "decisions_for (addKnownPlugin knownPlugins pid fp allow) pid fp = [?new]"
    unfolding decisions_for_def stored by simp
  have others: "other_decisions (addKnownPlugin knownPlugins pid fp allow) pid fp
      = other_decisions knownPlugins pid fp"
    unfolding other_decisions_def stored by simp
  have "find ?key (filter (\<lambda>d. \<not> ?key d) ?old @ [?new])
      = (if ?key ?new then Some ?new else None)"
    by (rule find_filter_same)
  then have answer: "isPluginAllowed (addKnownPlugin knownPlugins pid fp allow) pid fp = Some allow"
    unfolding isPluginAllowed_def stored by simp
  have unknown: "(isPluginAllowed knownPlugins pid fp = None) = (decisions_for knownPlugins pid fp = [])"
    unfolding isPluginAllowed_def decisions_for_def Let_def
    by (cases "find ?key ?old") (simp_all add: find_none_filter [symmetric])
  from one others answer unknown show ?thesis
    by (simp only: simp_thms)
qed

theorem addKnownPlugin_replaces_witness:
  "VsCodeSetting_get [] (addKnownPlugin stored_plugins ''file:///p.js'' ''abc'' True)
     = [\<lparr>pluginId = ''file:///q.js'', fingerprint = ''def'', allowed = True\<rparr>,
        \<lparr>pluginId = ''file:///p.js'', fingerprint = ''abc'', allowed = True\<rparr>]
   \<and> isPluginAllowed stored_plugins ''file:///p.js'' ''abc'' = Some False
   \<and> isPluginAllowed (addKnownPlugin stored_plugins ''file:///p.js'' ''abc'' True)
       ''file:///p.js'' ''abc'' = Some True
   \<and> isPluginAllowed stored_plugins ''file:///p.js'' ''0000'' = None
   \<and> decisions_for stored_plugins ''file:///p.js'' ''0000'' = []"
  using addKnownPlugin_replaces [of stored_plugins "''file:///p.js''" "''abc''" True]
    addKnownPlugin_replaces [of stored_plugins "''file:///p.js''" "''0000''" True]
  by (simp add: stored_plugins_def addKnownPlugin_def isPluginAllowed_def decisions_for_def
      VsCodeSetting_get_def VsCodeSetting_set_def)

section \<open>Properties of the Buffer encodings\<close>

























section \<open>JSON.parse reads back what JSON.stringify wrote for a record\<close>







lemma not_ws [simp]:
  "\<not> is_ws (CHR 0x22)" "\<not> is_ws (CHR '':'')" "\<not> is_ws (CHR '','')" "\<not> is_ws (CHR ''}'')"
  "\<not> is_ws (CHR ''{'')"
  by (simp_all add: is_ws_def)


lemma QuoteJSONString_not_Nil [simp]: "QuoteJSONString s \<noteq> []"
  by (simp add: QuoteJSONString_def)






text \<open>
  Every reader that succeeds has consumed input, so the length tests in the readers
  never fail.
\<close>

lemma parse_chars_shorter: "parse_chars s = Some (its, r) \<Longrightarrow> length r < length s"
proof (induction s arbitrary: its rule: parse_chars.induct)
  case 1
  then show ?case by simp
next
  case (2 c cs)
  then show ?case
    by (fastforce split: if_splits list.splits option.splits prod.splits)
qed


lemma scan_fraction_shorter: "scan_fraction s = Some (t, r) \<Longrightarrow> length r \<le> length s"
  using length_dropWhile_le [of is_digit "tl s"]
  by (auto simp: scan_fraction_def split: list.splits if_splits)

lemma scan_exponent_shorter: "scan_exponent s = Some (t, r) \<Longrightarrow> length r \<le> length s"
proof (cases s)
  case Nil
  then show "scan_exponent s = Some (t, r) \<Longrightarrow> length r \<le> length s"
    by (simp add: scan_exponent_def)
next
  case (Cons c cs)
  assume a: "scan_exponent s = Some (t, r)"
  show "length r \<le> length s"
  proof (cases "c = CHR ''e'' \<or> c = CHR ''E''")
    case False
    with a Cons show ?thesis
      by (simp add: scan_exponent_def)
  next
    case True
    have d: "length (dropWhile is_digit xs) \<le> length xs" for xs
      by (rule length_dropWhile_le)
    from a Cons True show ?thesis
      using d [of cs] d [of "tl cs"]
      by (auto simp: scan_exponent_def Let_def split: list.splits if_splits)
  qed
qed

lemma scan_number_shorter: "scan_number s = Some (t, r) \<Longrightarrow> length r < length s"
proof -
  assume a: "scan_number s = Some (t, r)"
  have d: "length (dropWhile is_digit xs) \<le> length xs" for xs
    by (rule length_dropWhile_le)
  have tail: "length r \<le> length s2"
    if "scan_fraction s2 = Some (fr, s3)" "scan_exponent s3 = Some (ex, r)" for s2 s3 fr ex
    using scan_fraction_shorter [OF that(1)] scan_exponent_shorter [OF that(2)] by simp
  from a show ?thesis
    using d [of "tl s"] d [of "tl (tl s)"]
    by (auto simp: scan_number_def Let_def split: list.splits if_splits option.splits prod.splits
        dest!: tail)
qed


lemma parse_consumes:
  fixes lit lit1 lit2 :: "string \<Rightarrow> 'n"
  shows "\<forall>v r. parse_value lit s = Some (v, r) \<longrightarrow> length r < length s"
    and "\<forall>v r. parse_elements lit1 acc1 s1 = Some (v, r) \<longrightarrow> length r < length s1"
    and "\<forall>v r. parse_members lit2 acc2 s2 = Some (v, r) \<longrightarrow> length r < length s2"
proof (induction lit s and lit1 acc1 s1 and lit2 acc2 s2
    rule: parse_value_parse_elements_parse_members.induct)
  case (1 lit s)
  show ?case
  proof (intro allI impI)
    fix v r
    assume a: "parse_value lit s = Some (v, r)"
    show "length r < length s"
    proof (cases "skip_ws s")
      case Nil
      with a show ?thesis
        by (subst (asm) parse_value.simps) simp
    next
      case (Cons c cs)
      note len = skip_ws_Cons_shorter [OF Cons]
      show ?thesis
      proof (cases "c = CHR ''{''")
        case True
        show ?thesis
        proof (cases "skip_ws cs")
          case Nil
          with a Cons True show ?thesis
            by (subst (asm) parse_value.simps) simp
        next
          case inner: (Cons c' r')
          show ?thesis
          proof (cases "c' = CHR ''}''")
            case True
            with a Cons \<open>c = CHR ''{''\<close> inner have "r = r'"
              by (subst (asm) parse_value.simps) simp
            with skip_ws_Cons_shorter [OF inner] len show ?thesis
              by simp
          next
            case False
            with a Cons \<open>c = CHR ''{''\<close> inner
            have "parse_members lit [] cs = Some (v, r)"
              by (subst (asm) parse_value.simps) simp
            with "1.IH"(1) [OF Cons \<open>c = CHR ''{''\<close> inner False] have "length r < length cs"
              by blast
            with len show ?thesis
              by simp
          qed
        qed
      next
        case nb: False
        show ?thesis
        proof (cases "c = CHR ''[''")
          case True
          show ?thesis
          proof (cases "skip_ws cs")
            case Nil
            with a Cons nb True show ?thesis
              by (subst (asm) parse_value.simps) simp
          next
            case inner: (Cons c' r')
            show ?thesis
            proof (cases "c' = CHR '']''")
              case True
              with a Cons nb \<open>c = CHR ''[''\<close> inner have "r = r'"
                by (subst (asm) parse_value.simps) simp
              with skip_ws_Cons_shorter [OF inner] len show ?thesis
                by simp
            next
              case False
              with a Cons nb \<open>c = CHR ''[''\<close> inner
              have "parse_elements lit [] cs = Some (v, r)"
                by (subst (asm) parse_value.simps) simp
              with "1.IH"(2) [OF Cons nb \<open>c = CHR ''[''\<close> inner False] have "length r < length cs"
                by blast
              with len show ?thesis
                by simp
            qed
          qed
        next
          case na: False
          have "length r \<le> length cs"
            using a Cons nb na
            by (subst (asm) parse_value.simps)
              (auto split: if_splits option.splits prod.splits
                dest!: parse_chars_shorter scan_number_shorter)
          with len show ?thesis
            by simp
        qed
      qed
    qed
  qed
next
  case (2 lit acc s)
  show ?case
  proof (intro allI impI)
    fix v r
    assume a: "parse_elements lit acc s = Some (v, r)"
    then obtain v1 r1 where first: "parse_value lit s = Some (v1, r1)"
      by (subst (asm) parse_elements.simps) (auto split: option.splits)
    with "2.IH"(1) have l1: "length r1 < length s"
      by blast
    from a first l1 obtain c r' where sk: "skip_ws r1 = c # r'"
      by (subst (asm) parse_elements.simps) (auto split: list.splits)
    note l2 = skip_ws_Cons_shorter [OF sk]
    show "length r < length s"
    proof (cases "c = CHR '',''")
      case True
      with a first l1 sk have "parse_elements lit (acc @ [v1]) r' = Some (v, r)"
        by (subst (asm) parse_elements.simps) simp
      with "2.IH"(2) [OF first refl l1 sk True] have "length r < length r'"
        by blast
      with l1 l2 show ?thesis
        by simp
    next
      case False
      with a first l1 sk have "r = r'"
        by (subst (asm) parse_elements.simps) (simp split: if_splits)
      with l1 l2 show ?thesis
        by simp
    qed
  qed
next
  case (3 lit acc s)
  show ?case
  proof (intro allI impI)
    fix v r
    assume a: "parse_members lit acc s = Some (v, r)"
    then obtain c cs where sk: "skip_ws s = c # cs"
      by (subst (asm) parse_members.simps) (auto split: list.splits)
    with a have q: "c = CHR 0x22"
      by (subst (asm) parse_members.simps) (auto split: if_splits)
    from a sk q obtain its r1 where key: "parse_chars cs = Some (its, r1)"
      by (subst (asm) parse_members.simps) (auto split: option.splits)
    from a sk q key obtain c' r' where sk1: "skip_ws r1 = c' # r'"
      by (subst (asm) parse_members.simps) (auto split: list.splits)
    from a sk q key sk1 have colon: "c' = CHR '':'' \<and> length r' < length s"
      by (subst (asm) parse_members.simps) (auto split: if_splits)
    from a sk q key sk1 colon obtain v1 r2 where val: "parse_value lit r' = Some (v1, r2)"
      by (subst (asm) parse_members.simps) (auto split: option.splits)
    from a sk q key sk1 colon val have l2: "length r2 < length r'"
      by (subst (asm) parse_members.simps) (auto split: if_splits)
    from a sk q key sk1 colon val l2 obtain c'' r3 where sk2: "skip_ws r2 = c'' # r3"
      by (subst (asm) parse_members.simps) (auto split: list.splits)
    note l3 = skip_ws_Cons_shorter [OF sk2]
    show "length r < length s"
    proof (cases "c'' = CHR '',''")
      case True
      with a sk q key sk1 colon val l2 sk2
      have "parse_members lit (define_property acc (string_of_items its) v1) r3 = Some (v, r)"
        by (subst (asm) parse_members.simps) simp
      with "3.IH"(2) [OF sk q key refl sk1 colon val refl l2 sk2 True] have "length r < length r3"
        by blast
      with l3 l2 colon show ?thesis
        by simp
    next
      case False
      with a sk q key sk1 colon val l2 sk2 have "r = r3"
        by (subst (asm) parse_members.simps) (simp split: if_splits)
      with l3 l2 colon show ?thesis
        by simp
    qed
  qed
qed


lemma parse_value_consumes: "parse_value lit s = Some (v, r) \<Longrightarrow> length r < length s"
  using parse_consumes(1) [of lit s] by blast

lemma parse_members_key_consumes:
  assumes "skip_ws s = c # cs" and "parse_chars cs = Some (its, r)" and "skip_ws r = c' # r'"
  shows "length r' < length s"
  using skip_ws_Cons_shorter [OF assms(1)] parse_chars_shorter [OF assms(2)]
    skip_ws_Cons_shorter [OF assms(3)]
  by simp







section \<open>Properties of the local-storage setting\<close>






section \<open>Properties of template expansion\<close>

lemma length_placeholder: "length placeholder = 18"
  by (simp add: placeholder_def)

lemma prefix_placeholder: "prefix placeholder t = (take 18 t = placeholder)"
proof
  assume "prefix placeholder t"
  then obtain r where "t = placeholder @ r"
    by (auto simp: prefix_def)
  then show "take 18 t = placeholder"
    by (simp add: length_placeholder)
next
  assume "take 18 t = placeholder"
  then have "t = placeholder @ drop 18 t"
    by (metis append_take_drop_id)
  then show "prefix placeholder t"
    by (metis prefixI)
qed

lemma render_resolved: "\<exists>r. SimpleTemplate_render t (Inr path) = Inr r"
proof (induction t "Inr path :: error + string" rule: SimpleTemplate_render.induct)
  case 1
  show ?case by simp
next
  case (2 c cs)
  show ?case
  proof (cases "take 18 (c # cs) = placeholder")
    case True
    from "2.hyps"(1) [OF True refl] obtain r where "SimpleTemplate_render (drop 17 cs) (Inr path) = Inr r"
      by blast
    with True show ?thesis
      by (simp del: take_Cons_numeral)
  next
    case False
    from "2.hyps"(2) [OF False] obtain r where "SimpleTemplate_render cs (Inr path) = Inr r"
      by blast
    with False show ?thesis
      by (simp del: take_Cons_numeral)
  qed
qed

lemma render_error: "SimpleTemplate_render t (Inl e) = Inl e' \<Longrightarrow> e' = e"
proof (induction t "Inl e :: error + string" arbitrary: e' rule: SimpleTemplate_render.induct)
  case 1
  then show ?case by simp
next
  case (2 c cs)
  show ?case
  proof (cases "take 18 (c # cs) = placeholder")
    case True
    with "2.prems" show ?thesis
      by (simp del: take_Cons_numeral)
  next
    case False
    with "2.prems" have "SimpleTemplate_render cs (Inl e) = Inl e'"
      by (simp del: take_Cons_numeral split: sum.splits)
    with "2.hyps"(2) [OF False] show ?thesis
      by blast
  qed
qed

lemma render_unresolved:
  "sublist placeholder t \<Longrightarrow> SimpleTemplate_render t (Inl e) = Inl e"
proof (induction t "Inl e :: error + string" rule: SimpleTemplate_render.induct)
  case 1
  then show ?case
    by (simp add: placeholder_def)
next
  case (2 c cs)
  show ?case
  proof (cases "take 18 (c # cs) = placeholder")
    case True
    then show ?thesis
      by (simp del: take_Cons_numeral)
  next
    case False
    then have "\<not> prefix placeholder (c # cs)"
      by (simp only: prefix_placeholder not_False_eq_True)
    with "2.prems" have "sublist placeholder cs"
      by (simp add: sublist_Cons_right)
    with "2.hyps"(2) [OF False] have "SimpleTemplate_render cs (Inl e) = Inl e"
      by blast
    with False show ?thesis
      by (simp del: take_Cons_numeral)
  qed
qed

lemma dollar_once: "CHR ''$'' \<notin> set (tl placeholder)"
  by (simp add: placeholder_def)

lemma no_match_inside:
  assumes "\<not> sublist placeholder pre" and "pre \<noteq> []"
  shows "take 18 (pre @ placeholder @ post) \<noteq> placeholder"
proof
  assume eq: "take 18 (pre @ placeholder @ post) = placeholder"
  show False
  proof (cases "length pre < 18")
    case True
    from assms(2) have pos: "0 < length pre"
      by simp
    have "take 18 (pre @ placeholder @ post) ! length pre = (pre @ placeholder @ post) ! length pre"
      using True by (rule nth_take)
    also have "\<dots> = CHR ''$''"
      by (simp add: nth_append placeholder_def)
    finally have "placeholder ! length pre = CHR ''$''"
      by (simp only: eq)
    moreover have "placeholder ! length pre = tl placeholder ! (length pre - 1)"
      using pos True by (simp add: nth_tl length_placeholder)
    moreover have "tl placeholder ! (length pre - 1) \<in> set (tl placeholder)"
      using pos True by (intro nth_mem) (simp add: length_placeholder)
    ultimately show False
      using dollar_once by simp
  next
    case False
    then have "take 18 (pre @ placeholder @ post) = take 18 pre"
      by simp
    with eq have "take 18 pre = placeholder"
      by simp
    then have "prefix placeholder pre"
      by (simp only: prefix_placeholder)
    then have "sublist placeholder pre"
      by (rule prefix_imp_sublist)
    with assms(1) show False ..
  qed
qed

lemma render_placeholder:
  "SimpleTemplate_render (placeholder @ post) (Inr path)
     = (case SimpleTemplate_render post (Inr path) of
          Inl e \<Rightarrow> Inl e
        | Inr rest \<Rightarrow> Inr (path @ rest))"
  by (simp add: placeholder_def)

lemma render_prefix:
  "\<not> sublist placeholder pre \<Longrightarrow>
     SimpleTemplate_render (pre @ placeholder @ post) w
       = (case SimpleTemplate_render (placeholder @ post) w of
            Inl e \<Rightarrow> Inl e
          | Inr r \<Rightarrow> Inr (pre @ r))"
proof (induction pre)
  case Nil
  show ?case
    by (simp split: sum.split)
next
  case (Cons c pre)
  from Cons.prems have ns: "\<not> sublist placeholder pre"
    by (simp add: sublist_Cons_right)
  have "take 18 ((c # pre) @ placeholder @ post) \<noteq> placeholder"
    by (rule no_match_inside [OF Cons.prems]) simp
  then have nm: "take 18 (c # pre @ placeholder @ post) \<noteq> placeholder"
    unfolding append_Cons .
  have "SimpleTemplate_render ((c # pre) @ placeholder @ post) w
      = (case SimpleTemplate_render (pre @ placeholder @ post) w of
           Inl e \<Rightarrow> Inl e
         | Inr rest \<Rightarrow> Inr (c # rest))"
    using nm by (simp del: take_Cons_numeral)
  with Cons.IH [OF ns] show ?case
    by (simp split: sum.split)
qed

lemma render_plain: "\<not> sublist placeholder t \<Longrightarrow> SimpleTemplate_render t w = Inr t"
proof (induction t)
  case Nil
  show ?case by simp
next
  case (Cons c cs)
  from Cons.prems have np: "\<not> prefix placeholder (c # cs)" and ns: "\<not> sublist placeholder cs"
    by (simp_all add: sublist_Cons_right)
  from np have "take 18 (c # cs) \<noteq> placeholder"
    unfolding prefix_placeholder .
  with Cons.IH [OF ns] show ?case
    by (simp del: take_Cons_numeral)
qed

lemma first_occurrence:
  "sublist placeholder t \<Longrightarrow> \<exists>pre post. t = pre @ placeholder @ post \<and> \<not> sublist placeholder pre"
proof (induction t)
  case Nil
  then have "placeholder = []"
    by simp
  then have False
    using length_placeholder by simp
  then show ?case ..
next
  case (Cons c cs)
  show ?case
  proof (cases "prefix placeholder (c # cs)")
    case True
    then obtain post where "c # cs = placeholder @ post"
      by (auto simp: prefix_def)
    then have "c # cs = [] @ placeholder @ post \<and> \<not> sublist placeholder []"
      using length_placeholder by auto
    then show ?thesis
      by blast
  next
    case False
    with Cons.prems have "sublist placeholder cs"
      by (simp add: sublist_Cons_right)
    from Cons.IH [OF this] obtain pre post where
      cs: "cs = pre @ placeholder @ post" and ns: "\<not> sublist placeholder pre"
      by blast
    have "\<not> prefix placeholder (c # pre)"
    proof
      assume "prefix placeholder (c # pre)"
      then have "prefix placeholder ((c # pre) @ placeholder @ post)"
        by (rule prefix_prefix)
      with False cs show False
        by simp
    qed
    with ns have "\<not> sublist placeholder (c # pre)"
      by (simp add: sublist_Cons_right)
    moreover from cs have "c # cs = (c # pre) @ placeholder @ post"
      by simp
    ultimately show ?thesis
      by blast
  qed
qed

lemma evaluateTemplate_inside:
  assumes "template = pre @ placeholder @ post" and "\<not> sublist placeholder pre"
  shows "\<exists>rest. evaluateTemplate (Some root) post = Inr rest
     \<and> (\<not> sublist placeholder post \<longrightarrow> rest = post)
     \<and> evaluateTemplate (Some root) template = Inr (pre @ root @ rest)"
proof -
  from render_resolved [of post root] obtain rest where
    rest: "SimpleTemplate_render post (Inr root) = Inr rest"
    by blast
  have plain: "\<not> sublist placeholder post \<longrightarrow> rest = post"
    using rest by (auto simp: render_plain)
  have "SimpleTemplate_render template (Inr root) = Inr (pre @ root @ rest)"
    unfolding assms(1) by (simp add: render_prefix [OF assms(2)] render_placeholder rest)
  with rest plain show ?thesis
    by (simp add: evaluateTemplate_def)
qed

lemma Array_map_fails:
  "x \<in> set xs \<Longrightarrow> f x = Inl e \<Longrightarrow> \<forall>y\<in>set xs. \<forall>e'. f y = Inl e' \<longrightarrow> e' = e \<Longrightarrow>
     Array_map f xs = Inl e"
proof (induction xs)
  case Nil
  then show ?case by simp
next
  case (Cons a xs)
  show ?case
  proof (cases "f a")
    case (Inl e')
    from Cons.prems(3) Inl have "e' = e"
      by simp
    with Inl show ?thesis
      by simp
  next
    case (Inr b)
    with Cons.prems(1,2) have mem: "x \<in> set xs"
      by auto
    from Cons.prems(3) have all: "\<forall>y\<in>set xs. \<forall>e'. f y = Inl e' \<longrightarrow> e' = e"
      by simp
    from Cons.IH [OF mem Cons.prems(2) all] Inr show ?thesis
      by simp
  qed
qed

lemma first_rejected_append:
  "first_rejected (ps @ Rejected e # qs)
     = Some (case first_rejected ps of None \<Rightarrow> e | Some e' \<Rightarrow> e')"
  by (induction ps rule: first_rejected.induct) simp_all


lemma evaluateTemplate_error: "evaluateTemplate None t = Inl e \<Longrightarrow> e = no_workspace"
  unfolding evaluateTemplate_def by (simp add: render_error)

lemma evaluateTemplate_outside:
  "sublist placeholder t \<Longrightarrow> evaluateTemplate None t = Inl no_workspace"
  unfolding evaluateTemplate_def by (simp add: render_unresolved)

lemma plugins_outside:
  assumes "entry \<in> set (VsCodeSetting_get [] setting)"
    and "sublist placeholder (entry_file entry)"
  shows "plugins None setting = Inl no_workspace"
  unfolding plugins_def
proof (rule Array_map_fails [OF assms(1)])
  show "(case evaluateTemplate None (entry_file entry) of
       Inl e \<Rightarrow> Inl e
     | Inr fullFilePath \<Rightarrow> Inr \<lparr>entry_file = fullFilePath\<rparr>) = Inl no_workspace"
    by (simp add: evaluateTemplate_outside [OF assms(2)])
  show "\<forall>y\<in>set (VsCodeSetting_get [] setting). \<forall>e'.
      (case evaluateTemplate None (entry_file y) of
         Inl e \<Rightarrow> Inl e
       | Inr fullFilePath \<Rightarrow> Inr \<lparr>entry_file = fullFilePath\<rparr>) = Inl e' \<longrightarrow> e' = no_workspace"
    by (auto split: sum.splits dest: evaluateTemplate_error)
qed

lemma customLibraries_outside:
  assumes "VsCodeSetting_get [] setting = before @ lib # after" and "source lib = File t"
    and "sublist placeholder t"
  shows "customLibraries N parseXml readFile None setting
     = Inl (case first_rejected (map (normalizeLib_start N parseXml None) before) of
              None \<Rightarrow> no_workspace
            | Some e \<Rightarrow> e)"
proof -
  have "normalizeLib_start N parseXml None lib = Rejected no_workspace"
    by (simp add: normalizeLib_start_def assms(2) evaluateTemplate_outside [OF assms(3)])
  then have "map (normalizeLib_start N parseXml None) (VsCodeSetting_get [] setting)
      = map (normalizeLib_start N parseXml None) before
        @ Rejected no_workspace # map (normalizeLib_start N parseXml None) after"
    by (simp add: assms(1))
  then show ?thesis
    by (simp add: customLibraries_def Let_def first_rejected_append)
qed

text \<open>
  C8 (as amended). For every template that contains \<^verbatim>\<open>${workspaceFolder}\<close>: it has a first
  occurrence of the placeholder; evaluated for a document inside a workspace, the text
  before the first occurrence is kept, the occurrence is replaced by the root path of
  the workspace, and the text after it is evaluated in the same way (and kept as it is
  when it has no placeholder). Evaluated for a document outside any workspace, it fails
  with the error ``No workspace is opened'' instead of returning a default.
  \<^verbatim>\<open>plugins\<close> throws that error when an entry has such a template. The promise of
  \<^verbatim>\<open>customLibraries\<close> is rejected when a library has such a file template: with that
  error when no library listed before it is rejected before its first \<^verbatim>\<open>await\<close>, and
  with the error of the first such library otherwise.
\<close>

theorem evaluateTemplate_workspaceFolder:
  assumes "sublist placeholder template"
  shows "(\<exists>first after. template = first @ placeholder @ after \<and> \<not> sublist placeholder first)
     \<and> (template = pre @ placeholder @ post \<and> \<not> sublist placeholder pre \<longrightarrow>
          (\<exists>rest. evaluateTemplate (Some root) post = Inr rest
             \<and> (\<not> sublist placeholder post \<longrightarrow> rest = post)
             \<and> evaluateTemplate (Some root) template = Inr (pre @ root @ rest)))
     \<and> evaluateTemplate None template = Inl no_workspace
     \<and> (\<lparr>entry_file = template\<rparr> \<in> set (VsCodeSetting_get [] plugin_setting) \<longrightarrow>
          plugins None plugin_setting = Inl no_workspace)
     \<and> (VsCodeSetting_get [] library_setting
            = earlier @ \<lparr>libName = name, entryId = ident, source = File template\<rparr> # later \<longrightarrow>
          customLibraries N parseXml readFile None library_setting
            = Inl (case first_rejected (map (normalizeLib_start N parseXml None) earlier) of
                     None \<Rightarrow> no_workspace
                   | Some e \<Rightarrow> e))"
proof (intro conjI impI)
  show "\<exists>first after. template = first @ placeholder @ after \<and> \<not> sublist placeholder first"
    using assms by (rule first_occurrence)
  show "evaluateTemplate None template = Inl no_workspace"
    using assms by (rule evaluateTemplate_outside)
next
  assume "template = pre @ placeholder @ post \<and> \<not> sublist placeholder pre"
  then have "template = pre @ placeholder @ post" and "\<not> sublist placeholder pre"
    by blast+
  then show "\<exists>rest. evaluateTemplate (Some root) post = Inr rest
      \<and> (\<not> sublist placeholder post \<longrightarrow> rest = post)
      \<and> evaluateTemplate (Some root) template = Inr (pre @ root @ rest)"
    by (rule evaluateTemplate_inside)
next
  assume entry: "\<lparr>entry_file = template\<rparr> \<in> set (VsCodeSetting_get [] plugin_setting)"
  have "sublist placeholder (entry_file \<lparr>entry_file = template\<rparr>)"
    using assms by simp
  with entry show "plugins None plugin_setting = Inl no_workspace"
    by (rule plugins_outside)
next
  assume libs: "VsCodeSetting_get [] library_setting
      = earlier @ \<lparr>libName = name, entryId = ident, source = File template\<rparr> # later"
  have src: "source \<lparr>libName = name, entryId = ident, source = File template\<rparr> = File template"
    by simp
  from libs src assms
  show "customLibraries N parseXml readFile None library_setting
      = Inl (case first_rejected (map (normalizeLib_start N parseXml None) earlier) of
               None \<Rightarrow> no_workspace
             | Some e \<Rightarrow> e)"
    by (rule customLibraries_outside)
qed

theorem evaluateTemplate_workspaceFolder_witness:
  "sublist placeholder ''${workspaceFolder}/plugins/b.js''
   \<and> evaluateTemplate (Some ''/home/me/project'') ''${workspaceFolder}/plugins/b.js''
     = Inr ''/home/me/project/plugins/b.js''
   \<and> evaluateTemplate None ''${workspaceFolder}/plugins/b.js'' = Inl no_workspace
   \<and> plugins None example_plugins = Inl no_workspace
   \<and> sublist placeholder ''${workspaceFolder}/shapes.json''
   \<and> customLibraries integers no_xml no_files None example_libraries = Inl no_workspace"
proof -
  have p: "sublist placeholder ''${workspaceFolder}/plugins/b.js''"
    by (rule prefix_imp_sublist) (simp add: placeholder_def)
  have l: "sublist placeholder ''${workspaceFolder}/shapes.json''"
    by (rule prefix_imp_sublist) (simp add: placeholder_def)
  have split: "''${workspaceFolder}/plugins/b.js'' = [] @ placeholder @ ''/plugins/b.js''"
    by (simp add: placeholder_def)
  have first: "\<not> sublist placeholder []"
    by (simp add: placeholder_def)
  have last: "\<not> sublist placeholder ''/plugins/b.js''"
    by (simp add: placeholder_def sublist_code)
  have entry: "\<lparr>entry_file = ''${workspaceFolder}/plugins/b.js''\<rparr>
      \<in> set (VsCodeSetting_get [] example_plugins)"
    by (simp add: example_plugins_def VsCodeSetting_get_def)
  have libs: "VsCodeSetting_get [] example_libraries
      = [\<lparr>libName = ''icons'', entryId = ''1'', source = Url ''https://example.org/icons.xml''\<rparr>]
        @ \<lparr>libName = ''shapes'', entryId = ''2'', source = File ''${workspaceFolder}/shapes.json''\<rparr>
        # []"
    by (simp add: example_libraries_def VsCodeSetting_get_def)
  have started: "first_rejected (map (normalizeLib_start integers no_xml None)
      [\<lparr>libName = ''icons'', entryId = ''1'', source = Url ''https://example.org/icons.xml''\<rparr>])
      = None"
    by (simp add: normalizeLib_start_def library_data_def)
  from evaluateTemplate_workspaceFolder [OF p, where pre = "[]" and post = "''/plugins/b.js''"
      and root = "''/home/me/project''" and plugin_setting = example_plugins
      and library_setting = None and earlier = "[]" and name = "''x''" and ident = "''y''"
      and later = "[]" and N = integers and parseXml = no_xml and readFile = no_files]
    split first entry
  have "\<exists>rest. evaluateTemplate (Some ''/home/me/project'') ''/plugins/b.js'' = Inr rest
      \<and> (\<not> sublist placeholder ''/plugins/b.js'' \<longrightarrow> rest = ''/plugins/b.js'')
      \<and> evaluateTemplate (Some ''/home/me/project'') ''${workspaceFolder}/plugins/b.js''
          = Inr ([] @ ''/home/me/project'' @ rest)"
    and b: "evaluateTemplate None ''${workspaceFolder}/plugins/b.js'' = Inl no_workspace"
    and c: "plugins None example_plugins = Inl no_workspace"
    by blast+
  with last have "evaluateTemplate (Some ''/home/me/project'') ''${workspaceFolder}/plugins/b.js''
      = Inr ([] @ ''/home/me/project'' @ ''/plugins/b.js'')"
    by blast
  then have a: "evaluateTemplate (Some ''/home/me/project'') ''${workspaceFolder}/plugins/b.js''
      = Inr ''/home/me/project/plugins/b.js''"
    by simp
  from evaluateTemplate_workspaceFolder [OF l, where pre = "[]" and post = "''/shapes.json''"
      and root = "''/home/me/project''" and plugin_setting = None
      and library_setting = example_libraries
      and earlier = "[\<lparr>libName = ''icons'', entryId = ''1'',
          source = Url ''https://example.org/icons.xml''\<rparr>]"
      and name = "''shapes''" and ident = "''2''"
      and later = "[]" and N = integers and parseXml = no_xml and readFile = no_files]
    libs
  have "customLibraries integers no_xml no_files None example_libraries
      = Inl (case first_rejected (map (normalizeLib_start integers no_xml None)
          [\<lparr>libName = ''icons'', entryId = ''1'',
            source = Url ''https://example.org/icons.xml''\<rparr>]) of
               None \<Rightarrow> no_workspace
             | Some e \<Rightarrow> e)"
    by blast
  then have d: "customLibraries integers no_xml no_files None example_libraries = Inl no_workspace"
    by (simp only: started option.case)
  from p l a b c d show ?thesis
    by (simp only: simp_thms)
qed

text \<open>
  C8 as stated fails for \<^verbatim>\<open>customLibraries\<close>. With no workspace opened and the libraries
  \<^verbatim>\<open>[{ json: "{" }, { file: "${workspaceFolder}/shapes.json" }]\<close>, evaluating the template of
  the second library fails with ``No workspace is opened'', and the promise of
  \<^verbatim>\<open>customLibraries\<close> is rejected with the \<^verbatim>\<open>SyntaxError\<close> of the first library: the failure
  of the template does not reach the caller.
\<close>

theorem evaluateTemplate_workspaceFolder_counterexample:
  "sublist placeholder ''${workspaceFolder}/shapes.json''
   \<and> VsCodeSetting_get [] broken_libraries
       = [\<lparr>libName = ''broken'', entryId = ''1'', source = Json ''{''\<rparr>,
          \<lparr>libName = ''shapes'', entryId = ''2'', source = File ''${workspaceFolder}/shapes.json''\<rparr>]
   \<and> evaluateTemplate None ''${workspaceFolder}/shapes.json'' = Inl no_workspace
   \<and> normalizeLib_start integers no_xml None
        \<lparr>libName = ''shapes'', entryId = ''2'', source = File ''${workspaceFolder}/shapes.json''\<rparr>
       = Rejected no_workspace
   \<and> customLibraries integers no_xml no_files None broken_libraries = Inl SyntaxError
   \<and> customLibraries integers no_xml no_files None broken_libraries \<noteq> Inl no_workspace"
proof -
  have l: "sublist placeholder ''${workspaceFolder}/shapes.json''"
    by (rule prefix_imp_sublist) (simp add: placeholder_def)
  have libs: "VsCodeSetting_get [] broken_libraries
       = [\<lparr>libName = ''broken'', entryId = ''1'', source = Json ''{''\<rparr>,
          \<lparr>libName = ''shapes'', entryId = ''2'', source = File ''${workspaceFolder}/shapes.json''\<rparr>]"
    by (simp add: broken_libraries_def VsCodeSetting_get_def)
  have ev: "evaluateTemplate None ''${workspaceFolder}/shapes.json'' = Inl no_workspace"
    using l by (rule evaluateTemplate_outside)
  have second: "normalizeLib_start integers no_xml None
        \<lparr>libName = ''shapes'', entryId = ''2'', source = File ''${workspaceFolder}/shapes.json''\<rparr>
       = Rejected no_workspace"
    by (simp add: normalizeLib_start_def ev)
  have parse: "JSON_parse (of_literal integers) ''{'' = Inl SyntaxError"
    by code_simp
  have first: "normalizeLib_start integers no_xml None
        \<lparr>libName = ''broken'', entryId = ''1'', source = Json ''{''\<rparr> = Rejected SyntaxError"
    by (simp add: normalizeLib_start_def parse)
  have out: "customLibraries integers no_xml no_files None broken_libraries = Inl SyntaxError"
    by (simp add: customLibraries_def Let_def libs first second)
  have "customLibraries integers no_xml no_files None broken_libraries \<noteq> Inl no_workspace"
    by (simp add: out no_workspace_def)
  with l libs ev second out show ?thesis
    by (simp only: simp_thms)
qed
end
